theory Spec2Isabelle
  imports Main "HOL-Library.AList" "HOL-Library.Multiset"
begin

section \<open>JavaScript values and strings used by the migration pipeline\<close>

text \<open>
  Strings are modelled as \<open>string\<close> (lists of 8-bit characters), that is, the Latin-1
  range of JavaScript's UTF-16 code units.
\<close>

definition startsWith :: "string \<Rightarrow> string \<Rightarrow> bool" where
  \<comment> \<open>\<open>s.startsWith(p)\<close>\<close>
  "startsWith p s = (take (length p) s = p)"

fun js_includes :: "string \<Rightarrow> string \<Rightarrow> bool" where
  \<comment> \<open>\<open>s.includes(sep)\<close>: \<open>sep\<close> occurs somewhere in \<open>s\<close>\<close>
  "js_includes sep [] = (sep = [])"
| "js_includes sep (c # cs) = (startsWith sep (c # cs) \<or> js_includes sep cs)"

fun js_split_from :: "string \<Rightarrow> string \<Rightarrow> string \<Rightarrow> string list" where
  \<comment> \<open>scan for a non-empty separator, left to right; \<open>acc\<close> is the current piece, reversed\<close>
  "js_split_from sep acc [] = [rev acc]"
| "js_split_from sep acc (c # cs) =
     (if sep \<noteq> [] \<and> startsWith sep (c # cs)
      then rev acc # js_split_from sep [] (drop (length sep) (c # cs))
      else js_split_from sep (c # acc) cs)"

definition js_split :: "string \<Rightarrow> string \<Rightarrow> string list" where
  \<comment> \<open>\<open>s.split(sep)\<close>; the empty separator splits into single code units\<close>
  "js_split sep s = (if sep = [] then map (\<lambda>c. [c]) s else js_split_from sep [] s)"

fun js_join :: "string \<Rightarrow> string list \<Rightarrow> string" where
  \<comment> \<open>\<open>pieces.join(glue)\<close>\<close>
  "js_join glue [] = []"
| "js_join glue [p] = p"
| "js_join glue (p # q # ps) = p @ glue @ js_join glue (q # ps)"

text \<open>
  A value read out of a plain object literal: an own property (here always a string), a
  member inherited from \<open>Object.prototype\<close>, or \<open>undefined\<close>.
\<close>

datatype js_value = JString string | JInherited string | JUndefined

definition object_prototype_keys :: "string list" where
  \<comment> \<open>the property names every object literal inherits from \<open>Object.prototype\<close>\<close>
  "object_prototype_keys =
     [''constructor'', ''__defineGetter__'', ''__defineSetter__'', ''hasOwnProperty'',
      ''__lookupGetter__'', ''__lookupSetter__'', ''isPrototypeOf'',
      ''propertyIsEnumerable'', ''toString'', ''valueOf'', ''__proto__'',
      ''toLocaleString'']"

definition js_get :: "(string \<times> string) list \<Rightarrow> string \<Rightarrow> js_value" where
  \<comment> \<open>\<open>obj[key]\<close> on an object literal: own properties first, then the prototype chain\<close>
  "js_get obj k =
     (case map_of obj k of
        Some v \<Rightarrow> JString v
      | None \<Rightarrow> if k \<in> set object_prototype_keys then JInherited k else JUndefined)"

fun truthy :: "js_value \<Rightarrow> bool" where
  "truthy (JString s) = (s \<noteq> [])"
| "truthy (JInherited k) = True"
| "truthy JUndefined = False"

section \<open>WordPress parser: \<open>mapStatus\<close>\<close>

definition statusMap :: "(string \<times> string) list" where
  "statusMap =
     [(''publish'', ''published''),
      (''draft'', ''draft''),
      (''pending'', ''draft''),
      (''private'', ''draft''),
      (''future'', ''draft''),
      (''trash'', ''archived'')]"

definition mapStatus :: "string \<Rightarrow> js_value" where
  \<comment> \<open>\<open>return statusMap[wpStatus] || 'draft'\<close>\<close>
  "mapStatus wpStatus =
     (let v = js_get statusMap wpStatus in if truthy v then v else JString ''draft'')"

section \<open>Media migrator\<close>

subsection \<open>The URL map\<close>

text \<open>
  Keys of the JavaScript \<open>Map\<close> are attachment URLs (strings) and attachment ids, which the
  XML parser delivers as numbers, as strings, or (tag missing or without text) as \<open>null\<close> or
  \<open>undefined\<close>. A \<open>Map\<close> keeps
  insertion order and distinguishes the number 17 from the string "17". A number is
  represented by the text \<open>String(n)\<close> that JavaScript prints for it: two numbers are the same
  key of a \<open>Map\<close> exactly when they print the same text, so nothing about a number is lost
  that \<open>Map\<close>, \<open>String\<close> or \<open>typeof\<close> can see.
\<close>

datatype js_key = KStr string | KNum string | KNull | KUndefined

type_synonym url_map = "(js_key \<times> string) list"

definition map_set :: "js_key \<Rightarrow> string \<Rightarrow> url_map \<Rightarrow> url_map" where
  \<comment> \<open>\<open>urlMap.set(k, v)\<close>: overwrite in place, or append\<close>
  "map_set k v m = AList.update k v m"

definition map_get :: "url_map \<Rightarrow> js_key \<Rightarrow> string option" where
  \<comment> \<open>\<open>urlMap.get(k)\<close>; \<open>None\<close> is \<open>undefined\<close>\<close>
  "map_get m k = map_of m k"

fun key_string :: "js_key \<Rightarrow> string" where
  \<comment> \<open>\<open>String(k)\<close>\<close>
  "key_string (KStr s) = s"
| "key_string (KNum n) = n"
| "key_string KNull = ''null''"
| "key_string KUndefined = ''undefined''"

definition or_else :: "string option \<Rightarrow> string option \<Rightarrow> string option" where
  \<comment> \<open>\<open>a || b\<close> on values that are strings or \<open>undefined\<close>/\<open>null\<close>: the empty string is falsy\<close>
  "or_else a b = (case a of Some v \<Rightarrow> if v \<noteq> [] then Some v else b | None \<Rightarrow> b)"

definition getNewUrl :: "url_map \<Rightarrow> js_key \<Rightarrow> string option" where
  \<comment> \<open>\<open>urlMap.get(idOrUrl) || urlMap.get(String(idOrUrl)) || null\<close>; \<open>None\<close> is \<open>null\<close>\<close>
  "getNewUrl m idOrUrl =
     or_else (map_get m idOrUrl) (or_else (map_get m (KStr (key_string idOrUrl))) None)"

fun is_http_key :: "js_key \<Rightarrow> bool" where
  \<comment> \<open>\<open>typeof oldUrl === 'string' && oldUrl.startsWith('http')\<close>\<close>
  "is_http_key (KStr s) = startsWith ''http'' s"
| "is_http_key (KNum n) = False"
| "is_http_key KNull = False"
| "is_http_key KUndefined = False"

fun updateContentUrls :: "url_map \<Rightarrow> string \<Rightarrow> string" where
  \<comment> \<open>the loop over the map's entries, in insertion order\<close>
  "updateContentUrls [] updated = updated"
| "updateContentUrls ((oldUrl, newUrl) # rest) updated =
     updateContentUrls rest
       (if is_http_key oldUrl
        then js_join newUrl (js_split (key_string oldUrl) updated)
        else updated)"

subsection \<open>Attachments, options, statistics\<close>

record attachment =
  att_id :: js_key
  att_url :: string
  att_filename :: string
  att_mimeType :: string
  att_alt :: string
  att_caption :: string
  att_createdAt :: string

record migrator_options =
  downloadDir :: string
  storageBucket :: "string option"
  concurrency :: nat
  skipExisting :: bool

record stats =
  total :: nat
  downloaded :: nat
  uploaded :: nat
  skipped :: nat
  failed :: nat
  errors :: "(string \<times> string) list"

record migrator =
  opts :: migrator_options
  storage :: bool  \<comment> \<open>\<open>this.storage\<close> is a bucket handle (\<open>True\<close>) or \<open>null\<close>\<close>
  mstats :: stats
  urlMap :: url_map

text \<open>
  What the outside world answers while one attachment is processed: whether the local
  file is already there, whether the download and the upload succeed (\<open>None\<close>) or raise
  (with the error's message), and the moment at which the call of \<open>processAttachment\<close>
  for it completes.
\<close>

record net =
  exists_local :: bool
  download_error :: "string option"
  upload_error :: "string option"
  finished :: nat

text \<open>
  The platform functions the migrator calls: \<open>path.join\<close> (with two arguments),
  \<open>path.basename\<close>, \<open>Date.now()\<close> (as text) and the current year/month (as \<open>YYYY/MM\<close>).
\<close>

record sys =
  path_join :: "string \<Rightarrow> string \<Rightarrow> string"
  path_basename :: "string \<Rightarrow> string"
  date_now :: string
  year_month :: string

definition new_migrator ::
  "string option \<Rightarrow> string option \<Rightarrow> nat option \<Rightarrow> bool option \<Rightarrow> migrator" where
  \<comment> \<open>the constructor: \<open>options.x || default\<close>, and \<open>skipExisting !== false\<close>\<close>
  "new_migrator dir bucket conc skipEx =
     \<lparr>opts = \<lparr>downloadDir = (case dir of Some d \<Rightarrow> if d \<noteq> [] then d else ''./migration/downloads''
                                   | None \<Rightarrow> ''./migration/downloads''),
              storageBucket = (case bucket of Some b \<Rightarrow> if b \<noteq> [] then Some b else None
                                   | None \<Rightarrow> None),
              concurrency = (case conc of Some n \<Rightarrow> if n \<noteq> 0 then n else 5 | None \<Rightarrow> 5),
              skipExisting = (skipEx \<noteq> Some False)\<rparr>,
      storage = False,
      mstats = \<lparr>total = 0, downloaded = 0, uploaded = 0, skipped = 0, failed = 0, errors = []\<rparr>,
      urlMap = []\<rparr>"

definition initStorage :: "migrator \<Rightarrow> migrator" where
  \<comment> \<open>\<open>if (this.options.storageBucket) this.storage = admin.storage().bucket(...)\<close>\<close>
  "initStorage m = (if storageBucket (opts m) \<noteq> None then m\<lparr>storage := True\<rparr> else m)"

subsection \<open>File names and new URLs\<close>

definition is_lower :: "char \<Rightarrow> bool" where
  "is_lower c = (c \<in> set ''abcdefghijklmnopqrstuvwxyz'')"

definition is_upper :: "char \<Rightarrow> bool" where
  "is_upper c = (c \<in> set ''ABCDEFGHIJKLMNOPQRSTUVWXYZ'')"

definition is_digit :: "char \<Rightarrow> bool" where
  "is_digit c = (c \<in> set ''0123456789'')"

definition to_lower :: "char \<Rightarrow> char" where
  \<comment> \<open>ASCII letters only\<close>
  "to_lower c = (if is_upper c then char_of (of_char c + (32::nat)) else c)"

definition toLowerCase :: "string \<Rightarrow> string" where
  "toLowerCase s = map to_lower s"

fun collapse_hyphens :: "string \<Rightarrow> string" where
  \<comment> \<open>\<open>.replace(/-+/g, '-')\<close>\<close>
  "collapse_hyphens [] = []"
| "collapse_hyphens [c] = [c]"
| "collapse_hyphens (c # d # cs) =
     (if c = CHR ''-'' \<and> d = CHR ''-'' then collapse_hyphens (d # cs)
      else c # collapse_hyphens (d # cs))"

definition sanitizeFilename :: "string \<Rightarrow> string" where
  "sanitizeFilename filename =
     toLowerCase
       (collapse_hyphens
          (map (\<lambda>c. if is_lower c \<or> is_upper c \<or> is_digit c \<or> c = CHR ''.'' \<or> c = CHR ''-''
                     then c else CHR ''-'') filename))"

definition extractFilename :: "sys \<Rightarrow> string \<Rightarrow> string" where
  \<comment> \<open>last \<open>/\<close>-separated part, up to the first \<open>?\<close>; \<open>file-<now>\<close> when that is empty\<close>
  "extractFilename y url =
     (let parts = js_split ''/'' url;
          filename = hd (js_split ''?'' (last parts))
      in if filename \<noteq> [] then filename else ''file-'' @ date_now y)"

definition bucket_text :: "migrator \<Rightarrow> string" where
  \<comment> \<open>\<open>${this.options.storageBucket}\<close> inside a template string\<close>
  "bucket_text m = (case storageBucket (opts m) of Some b \<Rightarrow> b | None \<Rightarrow> ''null'')"

definition localPath :: "sys \<Rightarrow> migrator \<Rightarrow> attachment \<Rightarrow> string" where
  "localPath y m a =
     path_join y (downloadDir (opts m))
       (sanitizeFilename
          (if att_filename a \<noteq> [] then att_filename a else extractFilename y (att_url a)))"

definition imagesUrl :: "sys \<Rightarrow> string \<Rightarrow> string" where
  \<comment> \<open>\<open>`/images/${path.basename(localPath)}`\<close>\<close>
  "imagesUrl y p = ''/images/'' @ path_basename y p"

definition getStorageUrl :: "sys \<Rightarrow> migrator \<Rightarrow> string \<Rightarrow> string" where
  "getStorageUrl y m p =
     ''https://storage.googleapis.com/'' @ bucket_text m @ ''/media/'' @ path_basename y p"

definition uploadedUrl :: "sys \<Rightarrow> migrator \<Rightarrow> string \<Rightarrow> string" where
  \<comment> \<open>the URL \<open>uploadToStorage\<close> returns when the upload and \<open>makePublic\<close> succeed\<close>
  "uploadedUrl y m p =
     ''https://storage.googleapis.com/'' @ bucket_text m @ ''/media/'' @ year_month y
       @ ''/'' @ path_basename y p"

subsection \<open>\<open>processAttachment\<close> and \<open>migrate\<close>\<close>

definition bump_skipped :: "migrator \<Rightarrow> migrator" where
  "bump_skipped m = m\<lparr>mstats := (mstats m)\<lparr>skipped := skipped (mstats m) + 1\<rparr>\<rparr>"

definition bump_downloaded :: "migrator \<Rightarrow> migrator" where
  "bump_downloaded m = m\<lparr>mstats := (mstats m)\<lparr>downloaded := downloaded (mstats m) + 1\<rparr>\<rparr>"

definition bump_uploaded :: "migrator \<Rightarrow> migrator" where
  "bump_uploaded m = m\<lparr>mstats := (mstats m)\<lparr>uploaded := uploaded (mstats m) + 1\<rparr>\<rparr>"

definition record_failure :: "attachment \<Rightarrow> string \<Rightarrow> migrator \<Rightarrow> migrator" where
  \<comment> \<open>the \<open>catch\<close> block\<close>
  "record_failure a msg m =
     m\<lparr>mstats := (mstats m)\<lparr>failed := failed (mstats m) + 1,
                              errors := errors (mstats m) @ [(att_url a, msg)]\<rparr>\<rparr>"

definition set_urls :: "attachment \<Rightarrow> string \<Rightarrow> migrator \<Rightarrow> migrator" where
  \<comment> \<open>\<open>urlMap.set(url, newUrl); urlMap.set(id, newUrl)\<close>\<close>
  "set_urls a newUrl m =
     m\<lparr>urlMap := map_set (att_id a) newUrl (map_set (KStr (att_url a)) newUrl (urlMap m))\<rparr>"

definition processAttachment :: "sys \<Rightarrow> migrator \<Rightarrow> attachment \<times> net \<Rightarrow> migrator" where
  "processAttachment y m aw =
     (let a = fst aw; w = snd aw in
      if att_url a = [] then bump_skipped m
      else
        let p = localPath y m a in
        if skipExisting (opts m) \<and> exists_local w then
          set_urls a (if storage m then getStorageUrl y m p else imagesUrl y p) (bump_skipped m)
        else
          (case download_error w of
             Some msg \<Rightarrow> record_failure a msg m
           | None \<Rightarrow>
               let m1 = bump_downloaded m in
               if storage m1 then
                 (case upload_error w of
                    Some msg \<Rightarrow> record_failure a msg m1
                  | None \<Rightarrow> set_urls a (uploadedUrl y m1 p) (bump_uploaded m1))
               else set_urls a (imagesUrl y p) m1))"

fun chunk_fuel :: "nat \<Rightarrow> nat \<Rightarrow> 'a list \<Rightarrow> 'a list list option" where
  \<comment> \<open>the loop \<open>for (i = 0; i < array.length; i += size)\<close>, one iteration per unit of fuel\<close>
  "chunk_fuel 0 sz xs = (if xs = [] then Some [] else None)"
| "chunk_fuel (Suc k) sz xs =
     (if xs = [] then Some []
      else map_option (\<lambda>r. take sz xs # r) (chunk_fuel k sz (drop sz xs)))"

definition chunk :: "'a list \<Rightarrow> nat \<Rightarrow> 'a list list option" where
  \<comment> \<open>\<open>None\<close>: the loop never ends (size 0 on a non-empty array)\<close>
  "chunk xs sz = chunk_fuel (length xs) sz xs"

definition completion_order :: "(attachment \<times> net) list \<Rightarrow> (attachment \<times> net) list" where
  \<comment> \<open>the attachments of a batch in the order in which their calls complete (the calls
      of a batch that complete at the same moment, in the order of the batch)\<close>
  "completion_order batch = sort_key (\<lambda>aw. finished (snd aw)) batch"

text \<open>
  \<open>Promise.all\<close> starts the calls of a batch together, and the batches run one after the
  other. A call changes the state in steps that do not depend on the other calls: it
  increments counters, appends to the list of errors, and as its last step sets its two
  map entries, with no \<open>await\<close> between the two. The state after a batch is therefore the
  one reached by running its calls one after the other in the order in which they
  complete.
\<close>

definition migrate ::
  "sys \<Rightarrow> migrator \<Rightarrow> (attachment \<times> net) list \<Rightarrow> migrator option" where
  "migrate y m inputs =
     (let m0 = m\<lparr>mstats := (mstats m)\<lparr>total := length inputs\<rparr>\<rparr> in
      map_option
        (\<lambda>batches. fold (\<lambda>batch st. fold (\<lambda>aw st'. processAttachment y st' aw)
                                         (completion_order batch) st)
                      batches m0)
        (chunk inputs (concurrency (opts m))))"

text \<open>How one attachment ends, read off the world's answers.\<close>

definition upload_fails :: "migrator \<Rightarrow> attachment \<times> net \<Rightarrow> bool" where
  \<comment> \<open>the download succeeded and the upload then raised\<close>
  "upload_fails m aw =
     (att_url (fst aw) \<noteq> [] \<and> \<not> (skipExisting (opts m) \<and> exists_local (snd aw)) \<and>
      download_error (snd aw) = None \<and> storage m \<and> upload_error (snd aw) \<noteq> None)"

definition mapped :: "migrator \<Rightarrow> attachment \<times> net \<Rightarrow> bool" where
  \<comment> \<open>a source URL is present and no step raised\<close>
  "mapped m aw =
     (att_url (fst aw) \<noteq> [] \<and>
      ((skipExisting (opts m) \<and> exists_local (snd aw)) \<or>
       (download_error (snd aw) = None \<and> (storage m \<longrightarrow> upload_error (snd aw) = None))))"

definition new_url :: "sys \<Rightarrow> migrator \<Rightarrow> attachment \<times> net \<Rightarrow> string" where
  \<comment> \<open>the new URL a mapped attachment is recorded with\<close>
  "new_url y m aw =
     (let p = localPath y m (fst aw) in
      if skipExisting (opts m) \<and> exists_local (snd aw)
      then (if storage m then getStorageUrl y m p else imagesUrl y p)
      else (if storage m then uploadedUrl y m p else imagesUrl y p))"

definition keys_of :: "attachment \<Rightarrow> string list" where
  \<comment> \<open>the url (when there is one) and the id of an attachment, as text\<close>
  "keys_of a = (if att_url a = [] then [] else [att_url a]) @ [key_string (att_id a)]"

definition fresh_stats :: stats where
  "fresh_stats = \<lparr>total = 0, downloaded = 0, uploaded = 0, skipped = 0, failed = 0, errors = []\<rparr>"

definition entries :: "sys \<Rightarrow> migrator \<Rightarrow> attachment \<times> net \<Rightarrow> url_map" where
  \<comment> \<open>the two map entries of a mapped attachment, none otherwise\<close>
  "entries y m aw =
     (if mapped m aw
      then [(KStr (att_url (fst aw)), new_url y m aw), (att_id (fst aw), new_url y m aw)]
      else [])"

definition accounted :: "stats \<Rightarrow> nat" where
  "accounted s = downloaded s + skipped s + failed s"

text \<open>A concrete platform and a concrete batch, for evaluating the model.\<close>

fun normalize_segments :: "bool \<Rightarrow> string list \<Rightarrow> string list \<Rightarrow> string list" where
  \<comment> \<open>the segments of a path, read left to right, with the segments kept so far in
      reverse: empty segments and \<open>.\<close> are dropped, \<open>..\<close> takes back the last segment kept;
      where there is none to take back, \<open>..\<close> is kept in a relative path (the flag) and
      dropped in an absolute one\<close>
  "normalize_segments relative kept [] = rev kept"
| "normalize_segments relative kept (s # ss) =
     (if s = [] \<or> s = ''.'' then normalize_segments relative kept ss
      else if s = ''..'' then
        (case kept of
           [] \<Rightarrow> normalize_segments relative (if relative then [''..''] else []) ss
         | k # ks \<Rightarrow>
             if k = ''..'' then normalize_segments relative (''..'' # kept) ss
             else normalize_segments relative ks ss)
      else normalize_segments relative (s # kept) ss)"

definition posix_normalize :: "string \<Rightarrow> string" where
  \<comment> \<open>\<open>path.normalize\<close> of Node.js on a POSIX platform\<close>
  "posix_normalize p =
     (if p = [] then ''.''
      else
        let absolute = (hd p = CHR ''/'');
            trailing = (last p = CHR ''/'');
            body = js_join ''/'' (normalize_segments (\<not> absolute) [] (js_split ''/'' p))
        in if body = [] then (if absolute then ''/'' else if trailing then ''./'' else ''.'')
           else (if absolute then ''/'' else []) @ body @ (if trailing then ''/'' else []))"

definition posix_join :: "string \<Rightarrow> string \<Rightarrow> string" where
  \<comment> \<open>\<open>path.join(a, b)\<close>: the non-empty arguments joined by \<open>/\<close>, then normalised\<close>
  "posix_join a b =
     (if a = [] \<and> b = [] then ''.''
      else if a = [] then posix_normalize b
      else if b = [] then posix_normalize a
      else posix_normalize (a @ ''/'' @ b))"

definition posix_basename :: "string \<Rightarrow> string" where
  \<comment> \<open>\<open>path.basename(p)\<close>: the last segment, trailing slashes not counted\<close>
  "posix_basename p =
     last (js_split ''/'' (rev (dropWhile (\<lambda>c. c = CHR ''/'') (rev p))))"

definition posix_sys :: sys where
  "posix_sys =
     \<lparr>path_join = posix_join,
      path_basename = posix_basename,
      date_now = ''1700000000000'',
      year_month = ''2024/01''\<rparr>"

definition photo :: attachment where
  "photo = \<lparr>att_id = KNum ''17'',
            att_url = ''http://old.example/wp-content/uploads/photo.jpg'',
            att_filename = ''photo.jpg'', att_mimeType = ''image/jpeg'', att_alt = ''A photo'',
            att_caption = [], att_createdAt = ''2021-03-04''\<rparr>"

definition logo :: attachment where
  "logo = \<lparr>att_id = KNum ''18'',
           att_url = ''http://old.example/wp-content/uploads/logo.png'',
           att_filename = ''logo.png'', att_mimeType = ''image/png'', att_alt = [],
           att_caption = [], att_createdAt = ''2021-03-05''\<rparr>"

definition all_fine :: net where
  "all_fine = \<lparr>exists_local = False, download_error = None, upload_error = None, finished = 0\<rparr>"

definition not_found :: net where
  "not_found =
     \<lparr>exists_local = False, download_error = Some ''HTTP 404'', upload_error = None, finished = 0\<rparr>"

definition upload_refused :: net where
  "upload_refused =
     \<lparr>exists_local = False, download_error = None, upload_error = Some ''HTTP 403'',
      finished = 0\<rparr>"

section \<open>Content cleaner\<close>

subsection \<open>Whitespace\<close>

definition is_space :: "char \<Rightarrow> bool" where
  \<comment> \<open>the class \<open>\s\<close> within Latin-1: tab, LF, VT, FF, CR, space, no-break space\<close>
  "is_space c = (of_char c \<in> {9, 10, 11, 12, 13, 32, 160 :: nat})"

definition js_trim :: "string \<Rightarrow> string" where
  \<comment> \<open>\<open>s.trim()\<close>\<close>
  "js_trim s = rev (dropWhile is_space (rev (dropWhile is_space s)))"

subsection \<open>The document tree\<close>

text \<open>
  The cleaner works on the tree the DOM library builds from the HTML text. An element has
  a tag name (lower case), its attributes in order, and its children. The steps of the
  cleaner take and return the children of the container \<open><div id="content">\<close>; the
  container itself is never matched, as with \<open>container.querySelectorAll\<close>.
\<close>

datatype node =
    Element string "(string \<times> string) list" "node list"
  | Text string
  | Comment string

type_synonym attrs = "(string \<times> string) list"

definition getAttribute :: "attrs \<Rightarrow> string \<Rightarrow> string option" where
  "getAttribute as name = map_of as name"

definition setAttribute :: "string \<Rightarrow> string \<Rightarrow> attrs \<Rightarrow> attrs" where
  \<comment> \<open>an attribute that exists keeps its place, a new one is appended\<close>
  "setAttribute name v as = AList.update name v as"

definition removeAttribute :: "string \<Rightarrow> attrs \<Rightarrow> attrs" where
  "removeAttribute name as = filter (\<lambda>kv. fst kv \<noteq> name) as"

definition reflect :: "attrs \<Rightarrow> string \<Rightarrow> string" where
  \<comment> \<open>a string property that reflects an attribute (\<open>el.alt\<close>, \<open>el.id\<close>, \<open>el.target\<close>): the
      empty string when the attribute is missing\<close>
  "reflect as name = (case getAttribute as name of Some v \<Rightarrow> v | None \<Rightarrow> [])"

definition is_html_space :: "char \<Rightarrow> bool" where
  \<comment> \<open>ASCII whitespace, which separates class tokens: tab, LF, FF, CR, space\<close>
  "is_html_space c = (of_char c \<in> {9, 10, 12, 13, 32 :: nat})"

fun tokens_from :: "string \<Rightarrow> string \<Rightarrow> string list" where
  \<comment> \<open>split on ASCII whitespace; \<open>acc\<close> is the current token, reversed\<close>
  "tokens_from acc [] = (if acc = [] then [] else [rev acc])"
| "tokens_from acc (c # cs) =
     (if is_html_space c
      then (if acc = [] then tokens_from [] cs else rev acc # tokens_from [] cs)
      else tokens_from (c # acc) cs)"

definition classList :: "attrs \<Rightarrow> string list" where
  \<comment> \<open>\<open>element.classList\<close>: the class tokens, each once, in order\<close>
  "classList as = rev (remdups (rev (tokens_from [] (reflect as ''class''))))"

fun textContent :: "node \<Rightarrow> string" where
  "textContent (Element t as cs) = concat (map textContent cs)"
| "textContent (Text s) = s"
| "textContent (Comment s) = []"

fun elements :: "node \<Rightarrow> node list" where
  \<comment> \<open>the element and the elements below it, in document order\<close>
  "elements (Element t as cs) = Element t as cs # concat (map elements cs)"
| "elements (Text s) = []"
| "elements (Comment s) = []"

definition descendants :: "node list \<Rightarrow> node list" where
  \<comment> \<open>the elements below a node with children \<open>cs\<close>\<close>
  "descendants cs = concat (map elements cs)"

fun tag_of :: "node \<Rightarrow> string" where
  "tag_of (Element t as cs) = t"
| "tag_of (Text s) = []"
| "tag_of (Comment s) = []"

fun attrs_of :: "node \<Rightarrow> attrs" where
  "attrs_of (Element t as cs) = as"
| "attrs_of (Text s) = []"
| "attrs_of (Comment s) = []"

fun children_of :: "node \<Rightarrow> node list" where
  "children_of (Element t as cs) = cs"
| "children_of (Text s) = []"
| "children_of (Comment s) = []"

fun is_element :: "node \<Rightarrow> bool" where
  "is_element (Element t as cs) = True"
| "is_element (Text s) = False"
| "is_element (Comment s) = False"

fun is_comment :: "node \<Rightarrow> bool" where
  "is_comment (Element t as cs) = False"
| "is_comment (Text s) = False"
| "is_comment (Comment s) = True"

definition text_nodes :: "string \<Rightarrow> node list" where
  \<comment> \<open>the children after \<open>el.textContent = s\<close>\<close>
  "text_nodes s = (if s = [] then [] else [Text s])"

subsection \<open>Selectors\<close>

datatype simple_selector =
    SelTag string  \<comment> \<open>\<open>div\<close>\<close>
  | SelClass string  \<comment> \<open>\<open>.name\<close>\<close>
  | SelAttr string  \<comment> \<open>\<open>[name]\<close>\<close>
  | SelAttrEq string string  \<comment> \<open>\<open>[name="value"]\<close>\<close>
  | SelAttrHas string string  \<comment> \<open>\<open>[name*="value"]\<close>\<close>
  | SelEmpty  \<comment> \<open>\<open>:empty\<close>\<close>
  | SelAny  \<comment> \<open>\<open>*\<close>\<close>

text \<open>
  A selector is a comma-separated list of compound selectors. The document has no doctype
  and is in quirks mode, where class names in selectors match without regard to ASCII
  case.
\<close>

type_synonym selector = "simple_selector list list"

fun matches_simple :: "simple_selector \<Rightarrow> string \<Rightarrow> attrs \<Rightarrow> node list \<Rightarrow> bool" where
  "matches_simple (SelTag t) tag as cs = (tag = t)"
| "matches_simple (SelClass c) tag as cs =
     (toLowerCase c \<in> set (map toLowerCase (classList as)))"
| "matches_simple (SelAttr a) tag as cs = (getAttribute as a \<noteq> None)"
| "matches_simple (SelAttrEq a v) tag as cs = (getAttribute as a = Some v)"
| "matches_simple (SelAttrHas a v) tag as cs =
     (case getAttribute as a of Some x \<Rightarrow> v \<noteq> [] \<and> js_includes v x | None \<Rightarrow> False)"
| "matches_simple SelEmpty tag as cs = (\<forall>c \<in> set cs. is_comment c)"
| "matches_simple SelAny tag as cs = True"

fun matches :: "selector \<Rightarrow> node \<Rightarrow> bool" where
  "matches sel (Element t as cs) =
     (\<exists>compound \<in> set sel. \<forall>simple \<in> set compound. matches_simple simple t as cs)"
| "matches sel (Text s) = False"
| "matches sel (Comment s) = False"

definition querySelectorAll :: "selector \<Rightarrow> node list \<Rightarrow> node list" where
  \<comment> \<open>\<open>el.querySelectorAll(sel)\<close> for an element with children \<open>cs\<close>\<close>
  "querySelectorAll sel cs = filter (matches sel) (descendants cs)"

definition querySelector :: "selector \<Rightarrow> node list \<Rightarrow> node option" where
  "querySelector sel cs =
     (case querySelectorAll sel cs of [] \<Rightarrow> None | e # es \<Rightarrow> Some e)"

subsection \<open>Options and the DOM library\<close>

record cleaner_options =
  baseUrl :: string
  newBaseUrl :: string
  keepClasses :: "(string \<Rightarrow> bool) list"  \<comment> \<open>each pattern as its test on a class name\<close>
  removeEmpty :: bool
  semanticize :: bool

definition default_options :: cleaner_options where
  \<comment> \<open>\<open>new ContentCleaner()\<close>, and also the orchestrator's
      \<open>new ContentCleaner({removeEmpty: true, semanticize: true})\<close>\<close>
  "default_options =
     \<lparr>baseUrl = [], newBaseUrl = [], keepClasses = [], removeEmpty = True, semanticize = True\<rparr>"

text \<open>
  The cleaner runs on the DOM library \<open>jsdom\<close>. Three of its answers are parameters of the
  model. \<open>parse html\<close> is the document \<open>new JSDOM('<div id="content">' + html + '</div>')\<close>
  builds, given by the children of the element that \<open>getElementById('content')\<close> finds.
  \<open>url_of v\<close> is what a URL-reflecting property (\<open>a.href\<close>, \<open>img.src\<close>, \<open>iframe.src\<close>) returns
  for an attribute with text \<open>v\<close>: the URL resolved against the document's address, or \<open>v\<close>
  itself when it cannot be resolved. \<open>reparse cs\<close> is the children an element gets from
  \<open>el.innerHTML = other.innerHTML\<close> when \<open>other\<close> has children \<open>cs\<close>.

  The properties \<open>alt\<close>, \<open>target\<close>, \<open>className\<close> and \<open>id\<close> reflect the attributes of the same
  name: reading gives the attribute's text, or the empty string when the attribute is
  missing, and writing sets the attribute. The image elements of \<open>jsdom\<close> have no property
  \<open>loading\<close>: the assignment \<open>img.loading = 'lazy'\<close> creates a property of the JavaScript
  object and leaves the attributes of the element as they are.
\<close>

datatype parsed =
    Container "node list"  \<comment> \<open>the children of the container\<close>
  | NoContainer  \<comment> \<open>the document has no element with the id \<open>content\<close>\<close>
  | NotModelled  \<comment> \<open>the instance of the library does not say what the document is\<close>

record dom_lib =
  parse :: "string \<Rightarrow> parsed"
  url_of :: "string \<Rightarrow> string"
  reparse :: "node list \<Rightarrow> node list"

definition reflect_url :: "dom_lib \<Rightarrow> attrs \<Rightarrow> string \<Rightarrow> string" where
  \<comment> \<open>\<open>el.href\<close>, \<open>el.src\<close>\<close>
  "reflect_url lib as name =
     (case getAttribute as name of Some v \<Rightarrow> url_of lib v | None \<Rightarrow> [])"

subsection \<open>Step 1: \<open>removeUnwantedElements\<close>\<close>

definition elementsToRemove :: "selector list" where
  "elementsToRemove =
     [[[SelTag ''script'']],
      [[SelTag ''style'']],
      [[SelTag ''noscript'']],
      [[SelTag ''iframe'', SelAttrHas ''src'' ''facebook'']],
      [[SelTag ''iframe'', SelAttrHas ''src'' ''twitter'']],
      [[SelClass ''elementor-screen-only'']],
      [[SelClass ''screen-reader-text'']],
      [[SelAttrEq ''aria-hidden'' ''true'', SelEmpty]]]"

fun remove_matching :: "(node \<Rightarrow> bool) \<Rightarrow> node \<Rightarrow> node list" where
  \<comment> \<open>\<open>el.remove()\<close> for every element of the static list of matches\<close>
  "remove_matching P (Element t as cs) =
     (if P (Element t as cs) then []
      else [Element t as (concat (map (remove_matching P) cs))])"
| "remove_matching P (Text s) = [Text s]"
| "remove_matching P (Comment s) = [Comment s]"

fun remove_comments :: "node \<Rightarrow> node list" where
  "remove_comments (Element t as cs) = [Element t as (concat (map remove_comments cs))]"
| "remove_comments (Text s) = [Text s]"
| "remove_comments (Comment s) = []"

definition removeUnwantedElements :: "node list \<Rightarrow> node list" where
  "removeUnwantedElements ns =
     concat (map remove_comments
       (fold (\<lambda>sel ns'. concat (map (remove_matching (matches sel)) ns')) elementsToRemove ns))"

subsection \<open>Step 2: \<open>convertElementorWidgets\<close>\<close>

definition image_src :: "dom_lib \<Rightarrow> attrs \<Rightarrow> string" where
  \<comment> \<open>\<open>img.getAttribute('data-src') || img.src\<close>\<close>
  "image_src lib as =
     (case getAttribute as ''data-src'' of
        Some v \<Rightarrow> if v \<noteq> [] then v else reflect_url lib as ''src''
      | None \<Rightarrow> reflect_url lib as ''src'')"

definition new_image :: "dom_lib \<Rightarrow> attrs \<Rightarrow> node" where
  \<comment> \<open>\<open>newImg.src = ...; newImg.alt = img.alt || ''\<close>\<close>
  "new_image lib as = Element ''img'' [(''src'', image_src lib as), (''alt'', reflect as ''alt'')] []"

definition convertHeadingWidget :: "dom_lib \<Rightarrow> node list \<Rightarrow> node list option" where
  "convertHeadingWidget lib cs =
     (case querySelector [[SelClass ''elementor-heading-title'']] cs of
        Some heading \<Rightarrow>
          Some [Element (toLowerCase (tag_of heading)) [] (text_nodes (textContent heading))]
      | None \<Rightarrow> None)"

definition convertTextWidget :: "dom_lib \<Rightarrow> node list \<Rightarrow> node list option" where
  "convertTextWidget lib cs =
     (case querySelector [[SelClass ''elementor-text-editor'']] cs of
        Some t \<Rightarrow> Some [Element ''div'' [] (reparse lib (children_of t))]
      | None \<Rightarrow> None)"

definition convertImageWidget :: "dom_lib \<Rightarrow> node list \<Rightarrow> node list option" where
  "convertImageWidget lib cs =
     (case querySelector [[SelTag ''img'']] cs of
        Some img \<Rightarrow>
          Some [Element ''figure'' []
                  (new_image lib (attrs_of img) #
                   (case querySelector [[SelClass ''widget-image-caption''], [SelTag ''figcaption'']] cs of
                      Some caption \<Rightarrow>
                        if js_trim (textContent caption) \<noteq> []
                        then [Element ''figcaption'' [] [Text (js_trim (textContent caption))]]
                        else []
                    | None \<Rightarrow> []))]
      | None \<Rightarrow> None)"

definition convertVideoWidget :: "dom_lib \<Rightarrow> node list \<Rightarrow> node list option" where
  "convertVideoWidget lib cs =
     (case querySelector [[SelTag ''iframe'']] cs of
        Some iframe \<Rightarrow>
          Some [Element ''div'' [(''class'', ''video-embed'')]
                  [Element ''iframe''
                     [(''src'', reflect_url lib (attrs_of iframe) ''src''),
                      (''allowfullscreen'', []), (''loading'', ''lazy'')] []]]
      | None \<Rightarrow> None)"

definition convertButtonWidget :: "dom_lib \<Rightarrow> node list \<Rightarrow> node list option" where
  "convertButtonWidget lib cs =
     (case querySelector [[SelTag ''a'']] cs of
        Some link \<Rightarrow>
          Some [Element ''a''
                  ([(''href'', reflect_url lib (attrs_of link) ''href''),
                    (''class'', ''btn btn-primary'')]
                   @ (if reflect (attrs_of link) ''target'' \<noteq> []
                      then [(''target'', reflect (attrs_of link) ''target'')] else []))
                  (text_nodes
                     (case querySelector [[SelClass ''elementor-button-text'']] cs of
                        Some t \<Rightarrow> textContent t
                      | None \<Rightarrow> textContent link))]
      | None \<Rightarrow> None)"

definition icon_list_item :: "dom_lib \<Rightarrow> node \<Rightarrow> node" where
  "icon_list_item lib item =
     Element ''li'' []
       (case querySelector [[SelTag ''a'']] (children_of item) of
          Some link \<Rightarrow>
            [Element ''a'' [(''href'', reflect_url lib (attrs_of link) ''href'')]
               (text_nodes
                  (case querySelector [[SelClass ''elementor-icon-list-text'']] (children_of item) of
                     Some t \<Rightarrow> textContent t
                   | None \<Rightarrow> textContent link))]
        | None \<Rightarrow>
            (case querySelector [[SelClass ''elementor-icon-list-text'']] (children_of item) of
               Some t \<Rightarrow> text_nodes (textContent t)
             | None \<Rightarrow> []))"

definition convertIconListWidget :: "dom_lib \<Rightarrow> node list \<Rightarrow> node list option" where
  "convertIconListWidget lib cs =
     (let items = querySelectorAll [[SelClass ''elementor-icon-list-item'']] cs
      in if items \<noteq> [] then Some [Element ''ul'' [] (map (icon_list_item lib) items)] else None)"

definition accordion_item :: "dom_lib \<Rightarrow> node \<Rightarrow> node" where
  "accordion_item lib item =
     Element ''details'' []
       [Element ''summary'' []
          (text_nodes
             (case querySelector [[SelClass ''elementor-accordion-title'']] (children_of item) of
                Some title \<Rightarrow> textContent title
              | None \<Rightarrow> [])),
        Element ''div'' []
          (case querySelector [[SelClass ''elementor-accordion-content'']] (children_of item) of
             Some contentEl \<Rightarrow> reparse lib (children_of contentEl)
           | None \<Rightarrow> [])]"

definition convertAccordionWidget :: "dom_lib \<Rightarrow> node list \<Rightarrow> node list option" where
  \<comment> \<open>the document fragment is replaced by its children\<close>
  "convertAccordionWidget lib cs =
     (let items = querySelectorAll [[SelClass ''elementor-accordion-item'']] cs
      in if items \<noteq> [] then Some (map (accordion_item lib) items) else None)"

definition tab_section :: "dom_lib \<Rightarrow> node list \<Rightarrow> node \<times> nat \<Rightarrow> node" where
  "tab_section lib contents ti =
     Element ''section'' []
       (Element ''h3'' [] (text_nodes (textContent (fst ti))) #
        (if snd ti < length contents
         then [Element ''div'' [] (reparse lib (children_of (contents ! snd ti)))]
         else []))"

definition convertTabsWidget :: "dom_lib \<Rightarrow> node list \<Rightarrow> node list option" where
  "convertTabsWidget lib cs =
     (let tabs = querySelectorAll [[SelClass ''elementor-tab-title'']] cs;
          contents = querySelectorAll [[SelClass ''elementor-tab-content'']] cs
      in if tabs \<noteq> []
         then Some [Element ''div'' [(''class'', ''tabs-content'')]
                      (map (tab_section lib contents) (zip tabs [0..<length tabs]))]
         else None)"

definition convertGalleryWidget :: "dom_lib \<Rightarrow> node list \<Rightarrow> node list option" where
  \<comment> \<open>\<open>newImg.src = ...; newImg.alt = img.alt || ''; newImg.loading = 'lazy'\<close>: the last
      assignment sets no attribute\<close>
  "convertGalleryWidget lib cs =
     (let images = querySelectorAll [[SelTag ''img'']] cs
      in if images \<noteq> []
         then Some [Element ''div'' [(''class'', ''image-gallery'')]
                      (map (\<lambda>img. Element ''figure'' [] [new_image lib (attrs_of img)]) images)]
         else None)"

definition convertImageBoxWidget :: "dom_lib \<Rightarrow> node list \<Rightarrow> node list option" where
  "convertImageBoxWidget lib cs =
     Some [Element ''article'' [(''class'', ''image-box'')]
             ((case querySelector [[SelTag ''img'']] cs of
                 Some img \<Rightarrow> [Element ''figure'' [] [new_image lib (attrs_of img)]]
               | None \<Rightarrow> [])
              @ (case querySelector [[SelClass ''elementor-image-box-title'']] cs of
                   Some title \<Rightarrow> [Element ''h3'' [] (text_nodes (textContent title))]
                 | None \<Rightarrow> [])
              @ (case querySelector [[SelClass ''elementor-image-box-description'']] cs of
                   Some description \<Rightarrow> [Element ''p'' [] (text_nodes (textContent description))]
                 | None \<Rightarrow> []))]"

definition widgetConverters :: "(string \<times> (dom_lib \<Rightarrow> node list \<Rightarrow> node list option)) list" where
  \<comment> \<open>a converter gets the children of the widget and returns the nodes that replace the
      widget, or \<open>None\<close> for \<open>null\<close>\<close>
  "widgetConverters =
     [(''heading'', convertHeadingWidget),
      (''text-editor'', convertTextWidget),
      (''image'', convertImageWidget),
      (''video'', convertVideoWidget),
      (''button'', convertButtonWidget),
      (''icon-list'', convertIconListWidget),
      (''accordion'', convertAccordionWidget),
      (''tabs'', convertTabsWidget),
      (''image-gallery'', convertGalleryWidget),
      (''image-box'', convertImageBoxWidget)]"

definition widget_type :: "attrs \<Rightarrow> string option" where
  \<comment> \<open>\<open>widgetType ? widgetType.split('.')[0] : null\<close>, for an element that has the
      attribute; \<open>None\<close> also when the type is empty, which \<open>if (type && ...)\<close> skips\<close>
  "widget_type as =
     (case getAttribute as ''data-widget_type'' of
        None \<Rightarrow> None
      | Some v \<Rightarrow>
          if v = [] then None
          else (let t = hd (js_split ''.'' v) in if t = [] then None else Some t))"

text \<open>
  The table \<open>widgetConverters\<close> is an object literal: the lookup \<open>this.widgetConverters[type]\<close>
  finds the ten converters and, for a type that names one, the members every object
  inherits from \<open>Object.prototype\<close>. All of these are truthy, so the loop calls what it
  found, as a method of the table and with the widget as its only argument.
\<close>

datatype converter =
    Registered "dom_lib \<Rightarrow> node list \<Rightarrow> node list option"
  | Inherited string

definition lookup_converter :: "string \<Rightarrow> converter option" where
  \<comment> \<open>\<open>this.widgetConverters[type]\<close>: own properties first, then the prototype chain\<close>
  "lookup_converter ty =
     (case map_of widgetConverters ty of
        Some c \<Rightarrow> Some (Registered c)
      | None \<Rightarrow> if ty \<in> set object_prototype_keys then Some (Inherited ty) else None)"

datatype widget_outcome =
    Replaced "node list"  \<comment> \<open>\<open>widget.replaceWith(converted)\<close>\<close>
  | Kept  \<comment> \<open>the widget is left as it is\<close>
  | Throws string  \<comment> \<open>the call throws a \<open>TypeError\<close>\<close>

definition throwing_types :: "string list" where
  \<comment> \<open>the members of \<open>Object.prototype\<close> whose call by the loop throws\<close>
  "throwing_types = [''__proto__'', ''__defineGetter__'', ''__defineSetter__'']"

definition call_inherited :: "string \<Rightarrow> widget_outcome" where
  \<comment> \<open>the call of a member of \<open>Object.prototype\<close> and what the loop does with its result.
      \<open>toString\<close> and \<open>toLocaleString\<close> return the text \<open>[object Object]\<close>, \<open>valueOf\<close> returns
      the table, which \<open>replaceWith\<close> turns into the same text: the widget is replaced by a
      text node. \<open>__proto__\<close> is an object and not a function, and \<open>__defineGetter__\<close> and
      \<open>__defineSetter__\<close> get no function as their second argument: the call throws.
      \<open>constructor\<close> returns the widget itself, which \<open>replaceWith\<close> puts where it was;
      \<open>hasOwnProperty\<close>, \<open>isPrototypeOf\<close> and \<open>propertyIsEnumerable\<close> return \<open>false\<close>,
      \<open>__lookupGetter__\<close> and \<open>__lookupSetter__\<close> return \<open>undefined\<close>\<close>
  "call_inherited name =
     (if name \<in> set [''toString'', ''toLocaleString'', ''valueOf'']
      then Replaced [Text ''[object Object]'']
      else if name \<in> set throwing_types then Throws name
      else Kept)"

definition convert_widget :: "dom_lib \<Rightarrow> node \<Rightarrow> widget_outcome" where
  \<comment> \<open>the body of the loop for one widget\<close>
  "convert_widget lib e =
     (case widget_type (attrs_of e) of
        None \<Rightarrow> Kept
      | Some ty \<Rightarrow>
          (case lookup_converter ty of
             None \<Rightarrow> Kept
           | Some (Registered c) \<Rightarrow>
               (case c lib (children_of e) of Some r \<Rightarrow> Replaced r | None \<Rightarrow> Kept)
           | Some (Inherited name) \<Rightarrow> call_inherited name))"

fun convert_widgets :: "dom_lib \<Rightarrow> node \<Rightarrow> node list" where
  \<comment> \<open>the loop over the static list of widgets, in document order, when no call throws:
      a widget that is replaced takes the widgets below it out of the document\<close>
  "convert_widgets lib (Element t as cs) =
     (case convert_widget lib (Element t as cs) of
        Replaced replacement \<Rightarrow> replacement
      | _ \<Rightarrow> [Element t as (concat (map (convert_widgets lib) cs))])"
| "convert_widgets lib (Text s) = [Text s]"
| "convert_widgets lib (Comment s) = [Comment s]"

definition sections_selector :: selector where
  "sections_selector =
     [[SelClass ''elementor-section''], [SelClass ''elementor-column''],
      [SelClass ''elementor-widget-wrap'']]"

fun unwrap_matching :: "(node \<Rightarrow> bool) \<Rightarrow> node \<Rightarrow> node list" where
  \<comment> \<open>\<open>unwrapElement\<close> for every element of the static list of matches\<close>
  "unwrap_matching P (Element t as cs) =
     (if P (Element t as cs) then concat (map (unwrap_matching P) cs)
      else [Element t as (concat (map (unwrap_matching P) cs))])"
| "unwrap_matching P (Text s) = [Text s]"
| "unwrap_matching P (Comment s) = [Comment s]"

datatype clean_error =
    TypeError string  \<comment> \<open>with what the error is about\<close>
  | Unknown  \<comment> \<open>the library instance does not model the document\<close>

definition throwing_widgets :: "dom_lib \<Rightarrow> node list \<Rightarrow> string list" where
  \<comment> \<open>the widgets of the static list whose call throws, by their types; the list holds
      every element of the document that has the attribute when the loop starts, also
      those a replacement has taken out of the document by the time they are visited\<close>
  "throwing_widgets lib ns =
     concat (map (\<lambda>e. case convert_widget lib e of Throws name \<Rightarrow> [name] | _ \<Rightarrow> [])
               (descendants ns))"

definition convertElementorWidgets :: "dom_lib \<Rightarrow> node list \<Rightarrow> clean_error + node list" where
  \<comment> \<open>the first call that throws ends the loop, and \<open>clean\<close> with it\<close>
  "convertElementorWidgets lib ns =
     (case throwing_widgets lib ns of
        name # names \<Rightarrow> Inl (TypeError name)
      | [] \<Rightarrow>
          Inr (concat (map (unwrap_matching (matches sections_selector))
                         (concat (map (convert_widgets lib) ns)))))"

subsection \<open>Step 3: \<open>unwrapDivs\<close>\<close>

definition hasKeeperClass :: "cleaner_options \<Rightarrow> attrs \<Rightarrow> bool" where
  "hasKeeperClass opt as =
     (\<exists>cls \<in> set (classList as). \<exists>pattern \<in> set (keepClasses opt). pattern cls)"

definition blockElements :: "string list" where
  "blockElements =
     [''div'', ''p'', ''h1'', ''h2'', ''h3'', ''h4'', ''h5'', ''h6'', ''ul'', ''ol'', ''table'',
      ''figure'', ''article'', ''section'']"

definition wraps_one_block :: "cleaner_options \<Rightarrow> node \<Rightarrow> bool" where
  \<comment> \<open>a \<open>div\<close> without a class to keep whose only element child is a block element; text
      beside that child does not count\<close>
  "wraps_one_block opt e =
     (tag_of e = ''div'' \<and> \<not> hasKeeperClass opt (attrs_of e) \<and>
      (case filter is_element (children_of e) of
         [child] \<Rightarrow> tag_of child \<in> set blockElements
       | _ \<Rightarrow> False))"

definition unwrapDivs :: "cleaner_options \<Rightarrow> node list \<Rightarrow> node list" where
  "unwrapDivs opt ns = concat (map (unwrap_matching (wraps_one_block opt)) ns)"

subsection \<open>Step 4: \<open>cleanAttributes\<close>\<close>

definition classesToRemove :: "string list" where
  \<comment> \<open>the patterns are all of the form \<open>/^prefix/\<close>\<close>
  "classesToRemove =
     [''wp-'', ''elementor-'', ''e-'', ''attachment-'', ''size-'',
      ''alignleft'', ''alignright'', ''aligncenter'', ''alignnone'',
      ''gallery-'', ''widget-'', ''menu-'', ''post-'', ''page-'', ''entry-'', ''hentry'',
      ''clearfix'', ''has-'', ''is-'', ''block-'']"

definition generated_id_prefixes :: "string list" where
  \<comment> \<open>\<open>/^(elementor-|wp-|post-|page-|widget-|menu-)/\<close>\<close>
  "generated_id_prefixes = [''elementor-'', ''wp-'', ''post-'', ''page-'', ''widget-'', ''menu-'']"

definition clean_classes :: "cleaner_options \<Rightarrow> attrs \<Rightarrow> attrs" where
  "clean_classes opt as =
     (if classList as \<noteq> [] then
        (let classesToKeep =
               filter (\<lambda>cls. \<not> (\<exists>p \<in> set classesToRemove. startsWith p cls) \<or>
                             (\<exists>pattern \<in> set (keepClasses opt). pattern cls))
                 (classList as)
         in if classesToKeep = [] then removeAttribute ''class'' as
            else setAttribute ''class'' (js_join '' '' classesToKeep) as)
      else as)"

definition clean_element_attrs :: "cleaner_options \<Rightarrow> attrs \<Rightarrow> attrs" where
  "clean_element_attrs opt as =
     (let as1 = clean_classes opt as;
          as2 = filter (\<lambda>kv. \<not> (startsWith ''data-'' (fst kv) \<and> fst kv \<noteq> ''data-src'')) as1;
          as3 = removeAttribute ''style'' as2
      in if reflect as3 ''id'' \<noteq> [] \<and>
            (\<exists>p \<in> set generated_id_prefixes. startsWith p (reflect as3 ''id''))
         then removeAttribute ''id'' as3 else as3)"

fun clean_node_attrs :: "cleaner_options \<Rightarrow> node \<Rightarrow> node" where
  "clean_node_attrs opt (Element t as cs) =
     Element t (clean_element_attrs opt as) (map (clean_node_attrs opt) cs)"
| "clean_node_attrs opt (Text s) = Text s"
| "clean_node_attrs opt (Comment s) = Comment s"

definition cleanAttributes :: "cleaner_options \<Rightarrow> node list \<Rightarrow> node list" where
  "cleanAttributes opt ns = map (clean_node_attrs opt) ns"

subsection \<open>Step 5: \<open>fixUrls\<close>\<close>

fun getSubstitution :: "string \<Rightarrow> string \<Rightarrow> string \<Rightarrow> string \<Rightarrow> string" where
  \<comment> \<open>the replacement text of \<open>String.prototype.replace\<close> for a string pattern: \<open>$$\<close>,
      \<open>$&\<close>, \<open>$`\<close> and \<open>$'\<close> are expanded\<close>
  "getSubstitution matched preceding following [] = []"
| "getSubstitution matched preceding following [c] = [c]"
| "getSubstitution matched preceding following (c # d # r) =
     (if c = CHR ''$'' \<and> d = CHR ''$'' then CHR ''$'' # getSubstitution matched preceding following r
      else if c = CHR ''$'' \<and> d = CHR ''&'' then matched @ getSubstitution matched preceding following r
      else if c = CHR ''$'' \<and> d = CHR 0x60 then preceding @ getSubstitution matched preceding following r
      else if c = CHR ''$'' \<and> d = CHR 0x27 then following @ getSubstitution matched preceding following r
      else c # getSubstitution matched preceding following (d # r))"

definition convertUrl :: "cleaner_options \<Rightarrow> string \<Rightarrow> string" where
  "convertUrl opt url =
     (if url = [] then url
      else if startsWith (baseUrl opt) url
      then getSubstitution (baseUrl opt) [] (drop (length (baseUrl opt)) url) (newBaseUrl opt)
           @ drop (length (baseUrl opt)) url
      else if startsWith ''/'' url \<and> \<not> startsWith ''//'' url then newBaseUrl opt @ url
      else url)"

definition fix_element_urls :: "dom_lib \<Rightarrow> cleaner_options \<Rightarrow> string \<Rightarrow> attrs \<Rightarrow> attrs" where
  \<comment> \<open>links (\<open>a[href]\<close>) are done before images (\<open>img[src]\<close>); no element is both\<close>
  "fix_element_urls lib opt t as =
     (if t = ''a'' \<and> getAttribute as ''href'' \<noteq> None
      then setAttribute ''href'' (convertUrl opt (reflect_url lib as ''href'')) as
      else if t = ''img'' \<and> getAttribute as ''src'' \<noteq> None
      then (let as1 = setAttribute ''src'' (convertUrl opt (reflect_url lib as ''src'')) as
            in if reflect as1 ''data-src'' \<noteq> []
               then setAttribute ''data-src'' (convertUrl opt (reflect as1 ''data-src'')) as1
               else as1)
      else as)"

fun fix_node_urls :: "dom_lib \<Rightarrow> cleaner_options \<Rightarrow> node \<Rightarrow> node" where
  "fix_node_urls lib opt (Element t as cs) =
     Element t (fix_element_urls lib opt t as) (map (fix_node_urls lib opt) cs)"
| "fix_node_urls lib opt (Text s) = Text s"
| "fix_node_urls lib opt (Comment s) = Comment s"

definition fixUrls :: "dom_lib \<Rightarrow> cleaner_options \<Rightarrow> node list \<Rightarrow> node list" where
  "fixUrls lib opt ns =
     (if baseUrl opt = [] \<or> newBaseUrl opt = [] then ns
      else map (fix_node_urls lib opt) ns)"

subsection \<open>Step 6: \<open>semanticize\<close>\<close>

definition semanticize_attrs :: "string \<Rightarrow> attrs \<Rightarrow> attrs" where
  \<comment> \<open>\<open>if (!img.alt) img.alt = ''\<close>; the second loop, \<open>img.loading = 'lazy'\<close>, sets a
      property that is no attribute and changes nothing in the document\<close>
  "semanticize_attrs t as =
     (if t = ''img'' \<and> reflect as ''alt'' = [] then setAttribute ''alt'' [] as else as)"

fun semanticize_node :: "node \<Rightarrow> node" where
  "semanticize_node (Element t as cs) =
     Element t (semanticize_attrs t as) (map semanticize_node cs)"
| "semanticize_node (Text s) = Text s"
| "semanticize_node (Comment s) = Comment s"

definition semanticize_step :: "node list \<Rightarrow> node list" where
  "semanticize_step ns = map semanticize_node ns"

subsection \<open>Step 7: \<open>removeEmptyElements\<close>\<close>

definition emptyTags :: "string list" where
  "emptyTags = [''p'', ''div'', ''span'', ''li'', ''ul'', ''ol'', ''section'', ''article'']"

definition media_selector :: selector where
  "media_selector =
     [[SelTag ''img''], [SelTag ''iframe''], [SelTag ''video''], [SelTag ''audio''],
      [SelTag ''canvas''], [SelTag ''svg'']]"

definition is_empty_element :: "string \<Rightarrow> node \<Rightarrow> bool" where
  \<comment> \<open>an element of the given tag with no text but whitespace and no media below it\<close>
  "is_empty_element tag e =
     (is_element e \<and> tag_of e = tag \<and> js_trim (textContent e) = [] \<and>
      querySelector media_selector (children_of e) = None)"

definition remove_round :: "node list \<Rightarrow> node list \<times> bool" where
  \<comment> \<open>the body of the \<open>do\<close> loop: one pass per tag over the elements the document has
      then; the flag \<open>removed\<close> is set when a pass meets an empty element\<close>
  "remove_round ns =
     fold (\<lambda>tag (ns', removed).
             (concat (map (remove_matching (is_empty_element tag)) ns'),
              removed \<or> (\<exists>e \<in> set (descendants ns'). is_empty_element tag e)))
          emptyTags (ns, False)"

fun node_count :: "node \<Rightarrow> nat" where
  "node_count (Element t as cs) = Suc (sum_list (map node_count cs))"
| "node_count (Text s) = 1"
| "node_count (Comment s) = 1"

text \<open>
  The loop ends because every round that sets the flag takes at least one node out of the
  document.
\<close>

definition total_count :: "node list \<Rightarrow> nat" where
  "total_count ns = sum_list (map node_count ns)"

lemma total_count_simps [simp]:
  "total_count [] = 0"
  "total_count (n # ns) = node_count n + total_count ns"
  "total_count (xs @ ys) = total_count xs + total_count ys"
  by (simp_all add: total_count_def)

lemma node_count_Element [simp]: "sum_list (map node_count cs) = total_count cs"
  by (simp add: total_count_def)

lemma total_count_concat: "total_count (concat xss) = sum_list (map total_count xss)"
  by (induction xss) auto

lemma remove_matching_le:
  "total_count (remove_matching P n) \<le> node_count n"
proof (induction P n rule: remove_matching.induct)
  case (1 P t as cs)
  show ?case
  proof (cases "P (Element t as cs)")
    case True
    then show ?thesis by simp
  next
    case False
    have "sum_list (map (\<lambda>c. total_count (remove_matching P c)) cs) \<le> sum_list (map node_count cs)"
      using 1 False by (intro sum_list_mono) auto
    then show ?thesis using False by (simp add: total_count_concat comp_def)
  qed
qed simp_all

lemma sum_list_strict:
  fixes f g :: "'a \<Rightarrow> nat"
  shows "x \<in> set xs \<Longrightarrow> f x < g x \<Longrightarrow> (\<forall>y \<in> set xs. f y \<le> g y) \<Longrightarrow>
    sum_list (map f xs) < sum_list (map g xs)"
proof (induction xs)
  case Nil
  then show ?case by simp
next
  case (Cons a xs)
  have le: "sum_list (map f xs) \<le> sum_list (map g xs)"
    using Cons.prems(3) by (intro sum_list_mono) auto
  show ?case
  proof (cases "x = a")
    case True
    then show ?thesis using Cons.prems(2) le by simp
  next
    case False
    then have "sum_list (map f xs) < sum_list (map g xs)" using Cons by auto
    moreover have "f a \<le> g a" using Cons.prems(3) by simp
    ultimately show ?thesis by simp
  qed
qed

lemma remove_matching_list_le:
  "total_count (concat (map (remove_matching P) ns)) \<le> total_count ns"
  by (induction ns) (auto intro: add_mono remove_matching_le)

lemma remove_matching_less:
  "\<exists>e \<in> set (elements n). P e \<Longrightarrow> total_count (remove_matching P n) < node_count n"
proof (induction P n rule: remove_matching.induct)
  case (1 P t as cs)
  show ?case
  proof (cases "P (Element t as cs)")
    case True
    then show ?thesis by simp
  next
    case False
    with 1(2) obtain c where c: "c \<in> set cs" "\<exists>e \<in> set (elements c). P e" by auto
    then have lt: "total_count (remove_matching P c) < node_count c" using 1(1) False by blast
    have le: "\<And>d. d \<in> set cs \<Longrightarrow> total_count (remove_matching P d) \<le> node_count d"
      by (rule remove_matching_le)
    have "sum_list (map (\<lambda>c. total_count (remove_matching P c)) cs) < sum_list (map node_count cs)"
      using c(1) lt le by (intro sum_list_strict[of c]) auto
    then show ?thesis using False by (simp add: total_count_concat comp_def)
  qed
qed simp_all

lemma remove_matching_list_less:
  "\<exists>e \<in> set (descendants ns). P e \<Longrightarrow>
   total_count (concat (map (remove_matching P) ns)) < total_count ns"
proof (induction ns)
  case Nil
  then show ?case by (simp add: descendants_def)
next
  case (Cons n ns)
  have le1: "total_count (remove_matching P n) \<le> node_count n" by (rule remove_matching_le)
  have le2: "total_count (concat (map (remove_matching P) ns)) \<le> total_count ns"
    by (rule remove_matching_list_le)
  from Cons.prems consider "\<exists>e \<in> set (elements n). P e" | "\<exists>e \<in> set (descendants ns). P e"
    by (auto simp: descendants_def)
  then show ?case
  proof cases
    case 1
    then have "total_count (remove_matching P n) < node_count n" by (rule remove_matching_less)
    then show ?thesis using le2 by simp
  next
    case 2
    then have "total_count (concat (map (remove_matching P) ns)) < total_count ns"
      by (rule Cons.IH)
    then show ?thesis using le1 by simp
  qed
qed

lemma remove_fold_count:
  "fold (\<lambda>tag (ns', removed).
             (concat (map (remove_matching (is_empty_element tag)) ns'),
              removed \<or> (\<exists>e \<in> set (descendants ns'). is_empty_element tag e)))
          tags (ns, r) = (ns2, r2) \<Longrightarrow>
   total_count ns2 \<le> total_count ns \<and> (r2 \<longrightarrow> r \<or> total_count ns2 < total_count ns)"
proof (induction tags arbitrary: ns r)
  case Nil
  then show ?case by simp
next
  case (Cons tag tags)
  define ns1 where "ns1 = concat (map (remove_matching (is_empty_element tag)) ns)"
  define r1 where "r1 = (r \<or> (\<exists>e \<in> set (descendants ns). is_empty_element tag e))"
  have le: "total_count ns1 \<le> total_count ns"
    unfolding ns1_def by (rule remove_matching_list_le)
  have lt: "r1 \<Longrightarrow> r \<or> total_count ns1 < total_count ns"
    unfolding ns1_def r1_def using remove_matching_list_less by blast
  from Cons.prems have "fold (\<lambda>tag (ns', removed).
             (concat (map (remove_matching (is_empty_element tag)) ns'),
              removed \<or> (\<exists>e \<in> set (descendants ns'). is_empty_element tag e)))
          tags (ns1, r1) = (ns2, r2)"
    by (simp add: ns1_def r1_def)
  from Cons.IH[OF this] le lt show ?case by auto
qed

lemma remove_round_count:
  "remove_round ns = (ns', True) \<Longrightarrow> total_count ns' < total_count ns"
  unfolding remove_round_def using remove_fold_count[of emptyTags ns False ns' True] by simp

function removeEmptyElements :: "node list \<Rightarrow> node list" where
  \<comment> \<open>\<open>do { ... } while (removed)\<close>\<close>
  "removeEmptyElements ns =
     (case remove_round ns of
        (ns', removed) \<Rightarrow> if removed then removeEmptyElements ns' else ns')"
  by pat_completeness auto
termination
  by (relation "measure total_count") (auto dest: remove_round_count[OF sym])

subsection \<open>The steps in order\<close>

definition clean_dom ::
  "dom_lib \<Rightarrow> cleaner_options \<Rightarrow> node list \<Rightarrow> clean_error + node list" where
  \<comment> \<open>steps 1 to 7 of \<open>clean\<close>, on the children of the container\<close>
  "clean_dom lib opt ns =
     (case convertElementorWidgets lib (removeUnwantedElements ns) of
        Inl err \<Rightarrow> Inl err
      | Inr n2 \<Rightarrow>
          let n5 = fixUrls lib opt (cleanAttributes opt (unwrapDivs opt n2));
              n6 = (if semanticize opt then semanticize_step n5 else n5)
          in Inr (if removeEmpty opt then removeEmptyElements n6 else n6))"

subsection \<open>Step 8: serialisation and \<open>cleanWhitespace\<close>\<close>

definition void_elements :: "string list" where
  "void_elements =
     [''area'', ''base'', ''basefont'', ''bgsound'', ''br'', ''col'', ''embed'', ''frame'',
      ''hr'', ''img'', ''input'', ''keygen'', ''link'', ''meta'', ''param'', ''source'',
      ''track'', ''wbr'']"

definition raw_text_elements :: "string list" where
  \<comment> \<open>elements whose text children are written without escaping\<close>
  "raw_text_elements =
     [''style'', ''script'', ''xmp'', ''iframe'', ''noembed'', ''noframes'', ''plaintext'']"

definition nbsp :: char where
  "nbsp = CHR 0xA0"

definition escape_text :: "string \<Rightarrow> string" where
  "escape_text s =
     concat (map (\<lambda>c. if c = CHR ''&'' then ''&amp;''
                         else if c = nbsp then ''&nbsp;''
                         else if c = CHR ''<'' then ''&lt;''
                         else if c = CHR ''>'' then ''&gt;''
                         else [c]) s)"

definition escape_attr :: "string \<Rightarrow> string" where
  "escape_attr s =
     concat (map (\<lambda>c. if c = CHR ''&'' then ''&amp;''
                         else if c = nbsp then ''&nbsp;''
                         else if c = CHR 0x22 then ''&quot;''
                         else [c]) s)"

definition serialize_attr :: "string \<times> string \<Rightarrow> string" where
  "serialize_attr kv = '' '' @ fst kv @ [CHR ''='', CHR 0x22] @ escape_attr (snd kv) @ [CHR 0x22]"

fun serialize :: "string \<Rightarrow> node \<Rightarrow> string" where
  \<comment> \<open>the HTML text of a node whose parent has the given tag\<close>
  "serialize parent (Element t as cs) =
     ''<'' @ t @ concat (map serialize_attr as) @ ''>'' @
     (if t \<in> set void_elements then []
      else concat (map (serialize t) cs) @ ''</'' @ t @ ''>'')"
| "serialize parent (Text s) = (if parent \<in> set raw_text_elements then s else escape_text s)"
| "serialize parent (Comment s) = ''<!--'' @ s @ ''-->''"

definition innerHTML :: "node list \<Rightarrow> string" where
  \<comment> \<open>\<open>content.innerHTML\<close> for the container, a \<open>div\<close>\<close>
  "innerHTML ns = concat (map (serialize ''div'') ns)"

definition newline :: char where
  "newline = CHR 0x0A"

definition is_line_terminator :: "char \<Rightarrow> bool" where
  \<comment> \<open>where \<open>^\<close> and \<open>$\<close> match under the \<open>m\<close> flag: LF and CR\<close>
  "is_line_terminator c = (of_char c \<in> {10, 13 :: nat})"

definition after_last :: "(char \<Rightarrow> bool) \<Rightarrow> string \<Rightarrow> nat" where
  \<comment> \<open>the length of the shortest prefix that contains every character with \<open>P\<close>\<close>
  "after_last P ws = length ws - length (takeWhile (\<lambda>x. \<not> P x) (rev ws))"

fun collapse_blank_lines :: "string \<Rightarrow> string" where
  \<comment> \<open>\<open>.replace(/\n\s*\n\s*\n/g, '\n\n')\<close>: a match starts at a line feed and runs to the
      last line feed of the whitespace that follows, if that holds two more of them\<close>
  "collapse_blank_lines [] = []"
| "collapse_blank_lines (c # cs) =
     (if c = newline \<and> 2 \<le> length (filter (\<lambda>x. x = newline) (takeWhile is_space cs))
      then newline # newline #
           collapse_blank_lines (drop (after_last (\<lambda>x. x = newline) (takeWhile is_space cs)) cs)
      else c # collapse_blank_lines cs)"

fun break_between_tags :: "string \<Rightarrow> string" where
  \<comment> \<open>\<open>.replace(/>\s+</g, '>\n<')\<close>\<close>
  "break_between_tags [] = []"
| "break_between_tags (c # cs) =
     (if c = CHR ''>'' \<and> takeWhile is_space cs \<noteq> [] \<and>
         startsWith ''<'' (drop (length (takeWhile is_space cs)) cs)
      then CHR ''>'' # newline # CHR ''<'' #
           break_between_tags (drop (Suc (length (takeWhile is_space cs))) cs)
      else c # break_between_tags cs)"

fun trim_lines :: "bool \<Rightarrow> string \<Rightarrow> string" where
  \<comment> \<open>\<open>.replace(/^\s+|\s+$/gm, '')\<close>; the flag says that the position is the start of the
      text or follows a line terminator. At a line start the whole run of whitespace is a
      match of \<open>^\s+\<close>; elsewhere \<open>\s+$\<close> matches the run up to its last line terminator,
      or all of it at the end of the text\<close>
  "trim_lines line_start [] = []"
| "trim_lines line_start (c # cs) =
     (if \<not> is_space c then c # trim_lines False cs
      else
        let ws = takeWhile is_space cs;  \<comment> \<open>the whitespace after \<open>c\<close>\<close>
            k = (if line_start \<or> drop (length ws) cs = [] then length ws
                 else after_last is_line_terminator ws - 1)
                \<comment> \<open>how much of it the match takes: all, or up to its last line terminator\<close>
        in if line_start \<or> drop (length ws) cs = [] \<or> (\<exists>x \<in> set ws. is_line_terminator x)
           then trim_lines (is_line_terminator (last (c # take k ws))) (drop k cs)
           else c # trim_lines (is_line_terminator c) cs)"

definition strip_newlines :: "string \<Rightarrow> string" where
  \<comment> \<open>\<open>.replace(/^\n+|\n+$/g, '')\<close>\<close>
  "strip_newlines s =
     rev (dropWhile (\<lambda>x. x = newline) (rev (dropWhile (\<lambda>x. x = newline) s)))"

definition cleanWhitespace :: "string \<Rightarrow> string" where
  "cleanWhitespace html =
     strip_newlines (trim_lines True (break_between_tags (collapse_blank_lines html)))"

subsection \<open>A parser for markup that is written out in full\<close>

text \<open>
  \<open>parse_html\<close> gives the tree the HTML parser builds for the children of the container,
  for markup that is written out in full: start tags with double-quoted attributes,
  matching end tags, text without character references, and only elements and nestings
  for which the parser builds the tree as it is written. For any other markup it gives
  \<open>None\<close>: the tree the parser's error recovery builds is not modelled.
\<close>

datatype token = TStart string attrs | TEnd string | TChars string

datatype lex_state =
    LData string
  | LTagOpen
  | LEndName string
  | LStartName string
  | LBeforeAttr string attrs
  | LAttrName string attrs string
  | LAfterEq string attrs string
  | LAttrValue string attrs string string
  | LAfterValue string attrs
  | LFail

definition plain_char :: "char \<Rightarrow> bool" where
  \<comment> \<open>characters the tokenizer passes on as they are\<close>
  "plain_char c = (c \<noteq> CHR ''&'' \<and> c \<noteq> CHR 0x00 \<and> c \<noteq> CHR 0x0D)"

definition name_char :: "char \<Rightarrow> bool" where
  "name_char c = (is_lower c \<or> is_digit c)"

definition attr_name_char :: "char \<Rightarrow> bool" where
  "attr_name_char c = (is_lower c \<or> is_digit c \<or> c = CHR ''-'' \<or> c = CHR ''_'')"

definition emit_text :: "string \<Rightarrow> token list \<Rightarrow> token list" where
  "emit_text acc out = (if acc = [] then out else TChars (rev acc) # out)"

fun lex_step :: "lex_state \<times> token list \<Rightarrow> char \<Rightarrow> lex_state \<times> token list" where
  \<comment> \<open>the tokens are collected in reverse\<close>
  "lex_step (LData acc, out) c =
     (if c = CHR ''<'' then (LTagOpen, emit_text acc out)
      else if plain_char c then (LData (c # acc), out) else (LFail, out))"
| "lex_step (LTagOpen, out) c =
     (if c = CHR ''/'' then (LEndName [], out)
      else if is_lower c then (LStartName [c], out) else (LFail, out))"
| "lex_step (LEndName acc, out) c =
     (if name_char c then (LEndName (c # acc), out)
      else if c = CHR ''>'' \<and> acc \<noteq> [] then (LData [], TEnd (rev acc) # out)
      else (LFail, out))"
| "lex_step (LStartName acc, out) c =
     (if name_char c then (LStartName (c # acc), out)
      else if c = CHR ''>'' then (LData [], TStart (rev acc) [] # out)
      else if c = CHR '' '' then (LBeforeAttr (rev acc) [], out)
      else (LFail, out))"
| "lex_step (LBeforeAttr t as, out) c =
     (if is_lower c then (LAttrName t as [c], out) else (LFail, out))"
| "lex_step (LAttrName t as an, out) c =
     (if attr_name_char c then (LAttrName t as (c # an), out)
      else if c = CHR ''='' then (LAfterEq t as (rev an), out)
      else (LFail, out))"
| "lex_step (LAfterEq t as an, out) c =
     (if c = CHR 0x22 then (LAttrValue t as an [], out) else (LFail, out))"
| "lex_step (LAttrValue t as an v, out) c =
     (if c = CHR 0x22
      then (if an \<in> fst ` set as then (LFail, out) else (LAfterValue t (as @ [(an, rev v)]), out))
      else if plain_char c then (LAttrValue t as an (c # v), out)
      else (LFail, out))"
| "lex_step (LAfterValue t as, out) c =
     (if c = CHR '' '' then (LBeforeAttr t as, out)
      else if c = CHR ''>'' then (LData [], TStart t as # out)
      else (LFail, out))"
| "lex_step (LFail, out) c = (LFail, out)"

definition tokenize :: "string \<Rightarrow> token list option" where
  "tokenize s =
     (case foldl lex_step (LData [], []) s of
        (LData acc, out) \<Rightarrow> Some (rev (emit_text acc out))
      | _ \<Rightarrow> None)"

definition headings :: "string list" where
  "headings = [''h1'', ''h2'', ''h3'', ''h4'', ''h5'', ''h6'']"

definition closes_p :: "string list" where
  \<comment> \<open>start tags before which the parser closes an open \<open>p\<close>\<close>
  "closes_p =
     [''div'', ''section'', ''article'', ''figure'', ''figcaption'', ''ul'', ''ol'', ''li'', ''p'']
     @ headings"

definition plain_tags :: "string list" where
  \<comment> \<open>the elements of the modelled fragment\<close>
  "plain_tags =
     closes_p @ [''span'', ''a'', ''b'', ''i'', ''em'', ''strong'', ''video'', ''img'', ''br'']"

definition as_written :: "string \<Rightarrow> string list \<Rightarrow> bool" where
  \<comment> \<open>a start tag, with the tags of the open elements (innermost first), for which the
      parser inserts the element where it is written\<close>
  "as_written t stack =
     (t \<in> set plain_tags \<and>
      (t \<in> set closes_p \<longrightarrow> ''p'' \<notin> set stack) \<and>
      (t \<in> set headings \<longrightarrow> (case stack of [] \<Rightarrow> True | cur # rest \<Rightarrow> cur \<notin> set headings)) \<and>
      (t = ''li'' \<longrightarrow> (case stack of [] \<Rightarrow> False | cur # rest \<Rightarrow> cur \<in> {''ul'', ''ol''})) \<and>
      (t = ''a'' \<longrightarrow> ''a'' \<notin> set stack))"

fun build ::
  "(string \<times> attrs \<times> node list) list \<Rightarrow> node list \<Rightarrow> token list \<Rightarrow> node list option" where
  \<comment> \<open>the open elements, innermost first, each with its children so far in reverse; then
      the children of the container so far, in reverse\<close>
  "build [] root [] = Some (rev root)"
| "build (f # fs) root [] = None"
| "build [] root (TChars s # ts) = build [] (Text s # root) ts"
| "build ((t, as, cs) # fs) root (TChars s # ts) = build ((t, as, Text s # cs) # fs) root ts"
| "build fs root (TStart t as # ts) =
     (if \<not> as_written t (map fst fs) then None
      else if t \<in> set void_elements then
        (case fs of
           [] \<Rightarrow> build [] (Element t as [] # root) ts
         | (t', as', cs') # fs' \<Rightarrow> build ((t', as', Element t as [] # cs') # fs') root ts)
      else build ((t, as, []) # fs) root ts)"
| "build [] root (TEnd t # ts) = None"
| "build [(t', as', cs')] root (TEnd t # ts) =
     (if t = t' then build [] (Element t' as' (rev cs') # root) ts else None)"
| "build ((t', as', cs') # (t2, as2, cs2) # fs) root (TEnd t # ts) =
     (if t = t' then build ((t2, as2, Element t' as' (rev cs') # cs2) # fs) root ts else None)"

definition parse_html :: "string \<Rightarrow> node list option" where
  "parse_html html = (case tokenize html of None \<Rightarrow> None | Some ts \<Rightarrow> build [] [] ts)"

subsection \<open>\<open>clean\<close>\<close>

definition clean :: "dom_lib \<Rightarrow> cleaner_options \<Rightarrow> string \<Rightarrow> clean_error + string" where
  \<comment> \<open>\<open>Inl\<close>: the call throws. Without a container, \<open>content\<close> is \<open>null\<close> and the first step
      throws\<close>
  "clean lib opt html =
     (if html = [] then Inr []
      else
        (case parse lib html of
           NotModelled \<Rightarrow> Inl Unknown
         | NoContainer \<Rightarrow> Inl (TypeError ''content'')
         | Container ns \<Rightarrow>
             (case clean_dom lib opt ns of
                Inl err \<Rightarrow> Inl err
              | Inr ns' \<Rightarrow> Inr (js_trim (cleanWhitespace (innerHTML ns'))))))"

definition plain_lib :: dom_lib where
  \<comment> \<open>an instance of the library for documents that are written out in full, have no
      URLs to resolve and no markup that changes when it is written out and read back\<close>
  "plain_lib =
     \<lparr>parse = (\<lambda>html. case parse_html html of Some ns \<Rightarrow> Container ns | None \<Rightarrow> NotModelled),
      url_of = (\<lambda>v. v),
      reparse = (\<lambda>cs. cs)\<rparr>"

text \<open>For stating properties: the tag and the attributes of every element of a tree.\<close>

definition tag_attrs :: "node list \<Rightarrow> (string \<times> attrs) list" where
  "tag_attrs ns = map (\<lambda>e. (tag_of e, attrs_of e)) (descendants ns)"

definition image_has_alt :: "string \<times> attrs \<Rightarrow> bool" where
  \<comment> \<open>an \<open>img\<close> has an \<open>alt\<close> attribute\<close>
  "image_has_alt ta = (fst ta = ''img'' \<longrightarrow> getAttribute (snd ta) ''alt'' \<noteq> None)"

definition attr_values :: "string \<Rightarrow> node list \<Rightarrow> (string \<times> string option) list" where
  \<comment> \<open>for every element in document order, its tag and its value of the attribute\<close>
  "attr_values name ns = map (\<lambda>ta. (fst ta, getAttribute (snd ta) name)) (tag_attrs ns)"

definition rewritten :: "dom_lib \<Rightarrow> cleaner_options \<Rightarrow> string \<Rightarrow> string \<times> string option \<Rightarrow>
    string \<times> string option" where
  \<comment> \<open>what \<open>fixUrls\<close> makes of an attribute value on an element, when it rewrites that
      attribute on elements with tag \<open>target\<close> only\<close>
  "rewritten lib opt target tv =
     (fst tv,
      if fst tv = target then map_option (\<lambda>v. convertUrl opt (url_of lib v)) (snd tv)
      else snd tv)"



definition rewritten_data_src :: "cleaner_options \<Rightarrow> string \<times> attrs \<Rightarrow> string option" where
  \<comment> \<open>what \<open>fixUrls\<close> makes of the \<open>data-src\<close> of an element with the given tag and
      attributes, when it rewrites that attribute on the \<open>img\<close> elements that have a \<open>src\<close>
      attribute and on no other element\<close>
  "rewritten_data_src opt ta =
     (if fst ta = ''img'' \<and> getAttribute (snd ta) ''src'' \<noteq> None
      then map_option (convertUrl opt) (getAttribute (snd ta) ''data-src'')
      else getAttribute (snd ta) ''data-src'')"

definition with_bases :: cleaner_options where
  "with_bases =
     default_options\<lparr>baseUrl := ''http://old.example'', newBaseUrl := ''https://new.example''\<rparr>"

section \<open>Migration orchestrator\<close>

subsection \<open>Records of the export and of the target store\<close>

record wp_page =
  p_title :: string
  p_slug :: string
  p_content :: string
  p_excerpt :: string
  p_status :: js_value
  p_menuOrder :: int
  p_featuredImage :: js_key
  p_createdAt :: string
  p_modifiedAt :: string

record menu_item =
  mi_title :: string
  mi_objectType :: string
  mi_url :: string
  mi_order :: int

record wp_data =
  wp_pages :: "wp_page list"
  wp_posts :: "wp_page list"
  wp_attachments :: "attachment list"
  wp_menus :: "(string \<times> menu_item list) list"  \<comment> \<open>\<open>Object.entries(wpData.menus)\<close>: name and items\<close>

record page_doc =
  d_title :: string
  d_slug :: string
  d_content :: string
  d_status :: js_value
  d_pageType :: string
  d_menuSection :: "string option"
  d_menuOrder :: int
  d_metaTitle :: string
  d_metaDescription :: string
  d_headerImage :: string
  d_createdAt :: string
  d_updatedAt :: string
  d_createdBy :: string
  d_updatedBy :: string

record menu_section =
  s_id :: string
  s_title :: string
  s_description :: string
  s_order :: nat
  s_visible :: bool

record media_doc =
  md_filename :: string
  md_url :: string
  md_originalUrl :: string
  md_type :: string
  md_mimeType :: string
  md_alt :: string
  md_caption :: string
  md_createdAt :: string
  md_uploadedBy :: string

record report =
  r_timestamp :: string
  r_source :: string
  r_pages_count :: nat
  r_posts_count :: nat
  r_attachments_count :: nat
  r_menuSections_count :: nat
  r_pages :: "(string \<times> string \<times> js_value) list"  \<comment> \<open>title, slug, status\<close>
  r_menuSections :: "menu_section list"
  r_mediaStats :: "stats option"

record options =
  inputFile :: "string option"
  dryRun :: bool
  downloadMedia :: bool
  uploadMedia :: bool
  verbose :: bool
  outputDir :: string

text \<open>
  The world a run meets: which files exist, what the parser returns for the input file
  (\<open>Inl\<close>: the message of the error it throws), the project id of the service account
  (\<open>None\<close>: it cannot be loaded), the network's answer for the i-th attachment, the
  platform functions, the clock, the DOM library of the cleaner, and the file system:
  the error with which it refuses \<open>fs.mkdir(dir, {recursive: true})\<close>, and the error with
  which it refuses \<open>fs.writeFile(path, ...)\<close> once the directories of the list have been
  created (\<open>ENOENT\<close>, for one, when the directory of the path does not exist); \<open>None\<close> when
  the call succeeds. Calls into an initialised store are taken to succeed, and dates are
  kept as the text the export gives them: their conversion to timestamps of the store is
  taken to succeed as well.
\<close>

record world =
  input_exists :: "string \<Rightarrow> bool"
  parse_file :: "string \<Rightarrow> string + wp_data"
  service_account :: "string option"
  net_of :: "nat \<Rightarrow> net"
  platform :: sys
  now_iso :: string
  dom :: dom_lib
  mkdir_error :: "string \<Rightarrow> string option"
  write_error :: "string list \<Rightarrow> string \<Rightarrow> string option"

datatype effect =
    MkDir string
  | WriteReport string report
  | WritePage string string
  | CommitSections "menu_section list"
  | CommitPages "page_doc list"
  | CommitMedia "media_doc list"

datatype outcome =
    Completed
  | Exited nat  \<comment> \<open>\<open>process.exit(code)\<close>\<close>
  | Rejected string  \<comment> \<open>an exception left \<open>migrate\<close>: the caller prints it and exits with 1\<close>
  | NeverReturns
  | Undetermined  \<comment> \<open>the library instance does not model a document of the run\<close>

subsection \<open>Helpers\<close>

definition is_word :: "char \<Rightarrow> bool" where
  \<comment> \<open>the class \<open>\w\<close>\<close>
  "is_word c = (is_lower c \<or> is_upper c \<or> is_digit c \<or> c = CHR ''_'')"

fun spaces_to_hyphen :: "string \<Rightarrow> string" where
  \<comment> \<open>\<open>.replace(/\s+/g, '-')\<close>\<close>
  "spaces_to_hyphen [] = []"
| "spaces_to_hyphen [c] = (if is_space c then ''-'' else [c])"
| "spaces_to_hyphen (c # d # cs) =
     (if is_space c
      then (if is_space d then spaces_to_hyphen (d # cs) else CHR ''-'' # spaces_to_hyphen (d # cs))
      else c # spaces_to_hyphen (d # cs))"

definition slugify :: "string \<Rightarrow> string" where
  "slugify text =
     js_trim
       (collapse_hyphens
          (spaces_to_hyphen
             (filter (\<lambda>c. is_word c \<or> is_space c \<or> c = CHR ''-'') (toLowerCase text))))"

definition strip_slashes :: "string \<Rightarrow> string" where
  \<comment> \<open>\<open>.replace(/^\/|\/$/g, '')\<close>: one leading and one trailing slash\<close>
  "strip_slashes s =
     (let s1 = (if s \<noteq> [] \<and> hd s = CHR ''/'' then tl s else s)
      in if s1 \<noteq> [] \<and> last s1 = CHR ''/'' then butlast s1 else s1)"

definition initFirebase :: "world \<Rightarrow> string option" where
  \<comment> \<open>the bucket of the default app when the service account loads (then \<open>db\<close> is not
      \<open>null\<close>); \<open>None\<close> when it does not: the error is caught and \<open>null\<close> returned\<close>
  "initFirebase w = map_option (\<lambda>project_id. project_id @ ''.appspot.com'') (service_account w)"

definition storage_bucket_name :: "string option \<Rightarrow> string + string" where
  \<comment> \<open>\<open>admin.storage().bucket().name\<close>: the Admin SDK throws when no default app has been
      initialised\<close>
  "storage_bucket_name app =
     (case app of
        None \<Rightarrow> Inl ''The default Firebase app does not exist.''
      | Some b \<Rightarrow> Inr b)"

subsection \<open>Stages\<close>

definition media_stage ::
  "world \<Rightarrow> options \<Rightarrow> string option \<Rightarrow> bool \<Rightarrow> wp_data \<Rightarrow>
   outcome + (migrator option \<times> effect list)" where
  \<comment> \<open>stage 2; \<open>dry\<close> is \<open>options.dryRun\<close> as it stands after the store was initialised. The
      options of the migrator are evaluated first, then \<open>initStorage\<close> is called, then
      \<open>migrate\<close>, which begins by creating the download directory\<close>
  "media_stage w o' app dry wp =
     (if downloadMedia o' \<or> uploadMedia o' then
        (case (if uploadMedia o' then map_sum id Some (storage_bucket_name app) else Inr None) of
           Inl msg \<Rightarrow> Inl (Rejected msg)
         | Inr bucket \<Rightarrow>
             let dir = path_join (platform w) (outputDir o') ''media'';
                 m0 = new_migrator (Some dir) bucket None None;
                 m1 = (if uploadMedia o' \<and> \<not> dry then initStorage m0 else m0);
                 atts = wp_attachments wp
             in (case mkdir_error w (downloadDir (opts m1)) of
                   Some msg \<Rightarrow> Inl (Rejected msg)
                 | None \<Rightarrow>
                     (case migrate (platform w) m1 (zip atts (map (net_of w) [0..<length atts])) of
                        None \<Rightarrow> Inl NeverReturns
                      | Some m2 \<Rightarrow> Inr (Some m2, [MkDir (downloadDir (opts m2))]))))
      else Inr (None, []))"

definition final_content :: "migrator option \<Rightarrow> string \<Rightarrow> string" where
  "final_content mm cleaned =
     (case mm of Some m \<Rightarrow> updateContentUrls (urlMap m) cleaned | None \<Rightarrow> cleaned)"

definition header_image :: "migrator option \<Rightarrow> js_key \<Rightarrow> string" where
  \<comment> \<open>\<open>mediaMigrator?.getNewUrl(page.featuredImage) || ''\<close>\<close>
  "header_image mm k =
     (case mm of
        Some m \<Rightarrow> (case getNewUrl (urlMap m) k of Some u \<Rightarrow> u | None \<Rightarrow> [])
      | None \<Rightarrow> [])"

definition cleaner :: "world \<Rightarrow> string \<Rightarrow> clean_error + string" where
  \<comment> \<open>\<open>new ContentCleaner({removeEmpty: true, semanticize: true})\<close>, and its \<open>clean\<close>\<close>
  "cleaner w html = clean (dom w) default_options html"

definition transform ::
  "world \<Rightarrow> migrator option \<Rightarrow> bool \<Rightarrow> wp_page \<Rightarrow> clean_error + page_doc"
  where
  \<comment> \<open>one page (\<open>news = False\<close>) or post (\<open>news = True\<close>); \<open>Inl\<close> when the cleaner throws\<close>
  "transform w mm news pg =
     (case cleaner w (p_content pg) of
        Inl err \<Rightarrow> Inl err
      | Inr cleanedContent \<Rightarrow>
          (case cleaner w (p_excerpt pg) of
             Inl err \<Rightarrow> Inl err
           | Inr cleanedExcerpt \<Rightarrow>
               Inr \<lparr>d_title = p_title pg,
                    d_slug = p_slug pg,
                    d_content = final_content mm cleanedContent,
                    d_status = p_status pg,
                    d_pageType = (if news then ''news'' else ''standard''),
                    d_menuSection = (if news then Some ''news'' else None),
                    d_menuOrder = (if news then 0 else p_menuOrder pg),
                    d_metaTitle = p_title pg,
                    d_metaDescription = take 160 cleanedExcerpt,
                    d_headerImage = header_image mm (p_featuredImage pg),
                    d_createdAt = p_createdAt pg,
                    d_updatedAt = p_modifiedAt pg,
                    d_createdBy = ''migration'',
                    d_updatedBy = ''migration''\<rparr>))"

fun transform_all ::
  "world \<Rightarrow> migrator option \<Rightarrow> bool \<Rightarrow> wp_page list \<Rightarrow> clean_error + page_doc list" where
  "transform_all w mm news [] = Inr []"
| "transform_all w mm news (pg # pgs) =
     (case transform w mm news pg of
        Inl err \<Rightarrow> Inl err
      | Inr d \<Rightarrow>
          (case transform_all w mm news pgs of
             Inl err \<Rightarrow> Inl err
           | Inr ds \<Rightarrow> Inr (d # ds)))"

fun thrown :: "clean_error \<Rightarrow> outcome" where
  \<comment> \<open>how the run ends when the cleaner throws\<close>
  "thrown (TypeError about) = Rejected (''TypeError: '' @ about)"
| "thrown Unknown = Undetermined"

definition item_matches :: "menu_item \<Rightarrow> page_doc \<Rightarrow> bool" where
  "item_matches item d = (d_slug d = strip_slashes (mi_url item) \<or> d_title d = mi_title item)"

fun assign_first :: "string \<Rightarrow> menu_item \<Rightarrow> page_doc list \<Rightarrow> page_doc list" where
  \<comment> \<open>\<open>pages.find(...)\<close>, then the two assignments to the page found\<close>
  "assign_first sec item [] = []"
| "assign_first sec item (d # ds) =
     (if item_matches item d
      then d\<lparr>d_menuSection := Some sec, d_menuOrder := mi_order item\<rparr> # ds
      else d # assign_first sec item ds)"

definition assign_item :: "string \<Rightarrow> page_doc list \<Rightarrow> menu_item \<Rightarrow> page_doc list" where
  "assign_item sec ds item =
     (if mi_objectType item = ''page'' then assign_first sec item ds else ds)"

fun assign_menus ::
  "(string \<times> menu_item list) list \<Rightarrow> menu_section list \<times> page_doc list \<Rightarrow>
   menu_section list \<times> page_doc list" where
  \<comment> \<open>the loop over the menus; \<open>sectionOrder\<close> is the number of sections pushed so far\<close>
  "assign_menus [] acc = acc"
| "assign_menus ((menuName, mitems) # rest) (secs, ds) =
     (if mitems \<noteq> [] then
        assign_menus rest
          (secs @ [\<lparr>s_id = slugify menuName, s_title = menuName, s_description = [],
                    s_order = length secs, s_visible = True\<rparr>],
           fold (\<lambda>item ds'. assign_item (slugify menuName) ds' item) mitems ds)
      else assign_menus rest (secs, ds))"

definition build_report ::
  "world \<Rightarrow> string \<Rightarrow> wp_data \<Rightarrow> page_doc list \<Rightarrow> menu_section list \<Rightarrow> migrator option \<Rightarrow>
   report" where
  "build_report w src wp ds secs mm =
     \<lparr>r_timestamp = now_iso w,
      r_source = src,
      r_pages_count = length ds,
      r_posts_count = length (wp_posts wp),
      r_attachments_count = length (wp_attachments wp),
      r_menuSections_count = length secs,
      r_pages = map (\<lambda>d. (d_title d, d_slug d, d_status d)) ds,
      r_menuSections = secs,
      r_mediaStats = map_option mstats mm\<rparr>"

fun write_pages ::
  "world \<Rightarrow> string list \<Rightarrow> (string \<times> string) list \<Rightarrow> effect list \<times> string option" where
  \<comment> \<open>the loop that writes the preview files, up to the first write that is refused\<close>
  "write_pages w made [] = ([], None)"
| "write_pages w made ((path, text) # rest) =
     (case write_error w made path of
        Some msg \<Rightarrow> ([], Some msg)
      | None \<Rightarrow>
          (case write_pages w made rest of
             (written, failure) \<Rightarrow> (WritePage path text # written, failure)))"

definition report_stage ::
  "world \<Rightarrow> options \<Rightarrow> string list \<Rightarrow> string \<Rightarrow> wp_data \<Rightarrow> page_doc list \<Rightarrow>
   menu_section list \<Rightarrow> migrator option \<Rightarrow> effect list \<times> string option" where
  \<comment> \<open>stage 4: the report, the preview directory, one preview file per page; with the
      directories created before, and with the error that ends the stage, if any\<close>
  "report_stage w o' made src wp ds secs mm =
     (let reportPath = path_join (platform w) (outputDir o') ''migration-report.json'';
          contentPath = path_join (platform w) (outputDir o') ''cleaned-content''
      in case write_error w made reportPath of
           Some msg \<Rightarrow> ([], Some msg)
         | None \<Rightarrow>
             (case mkdir_error w contentPath of
                Some msg \<Rightarrow> ([WriteReport reportPath (build_report w src wp ds secs mm)], Some msg)
              | None \<Rightarrow>
                  (case write_pages w (made @ [contentPath])
                          (map (\<lambda>d. (path_join (platform w) contentPath (d_slug d @ ''.html''),
                                     d_content d)) ds) of
                     (written, failure) \<Rightarrow>
                       ([WriteReport reportPath (build_report w src wp ds secs mm),
                         MkDir contentPath] @ written, failure))))"

fun batches_of :: "nat \<Rightarrow> 'a list \<Rightarrow> 'a list \<Rightarrow> 'a list list" where
  \<comment> \<open>the batching loop: a batch is committed when it reaches the cap, the rest at the end\<close>
  "batches_of cap cur [] = (if cur \<noteq> [] then [cur] else [])"
| "batches_of cap cur (x # xs) =
     (if length (cur @ [x]) \<ge> cap then (cur @ [x]) # batches_of cap [] xs
      else batches_of cap (cur @ [x]) xs)"

definition media_docs :: "migrator \<Rightarrow> attachment list \<Rightarrow> media_doc list" where
  "media_docs m atts =
     concat (map (\<lambda>a.
        case getNewUrl (urlMap m) (KStr (att_url a)) of
          None \<Rightarrow> []
        | Some newUrl \<Rightarrow>
            [\<lparr>md_filename = att_filename a,
              md_url = newUrl,
              md_originalUrl = att_url a,
              md_type = (let t = hd (js_split ''/'' (att_mimeType a))
                         in if t \<noteq> [] then t else ''file''),
              md_mimeType = att_mimeType a,
              md_alt = att_alt a,
              md_caption = att_caption a,
              md_createdAt = att_createdAt a,
              md_uploadedBy = ''migration''\<rparr>]) atts)"

definition commit_stage ::
  "options \<Rightarrow> wp_data \<Rightarrow> page_doc list \<Rightarrow> menu_section list \<Rightarrow> migrator option \<Rightarrow> effect list"
  where
  \<comment> \<open>stage 5, the \<open>else\<close> branch of \<open>if (options.dryRun)\<close>\<close>
  "commit_stage o' wp ds secs mm =
     (if secs \<noteq> [] then [CommitSections secs] else [])
     @ map CommitPages (batches_of 500 [] ds)
     @ (case mm of
          Some m \<Rightarrow>
            if uploadMedia o'
            then map CommitMedia (batches_of 500 [] (media_docs m (wp_attachments wp)))
            else []
        | None \<Rightarrow> [])"

subsection \<open>The run\<close>

definition created_dirs :: "effect list \<Rightarrow> string list" where
  \<comment> \<open>the directories a list of effects has created\<close>
  "created_dirs es = concat (map (\<lambda>e. case e of MkDir d \<Rightarrow> [d] | _ \<Rightarrow> []) es)"

definition run :: "world \<Rightarrow> options \<Rightarrow> effect list \<times> outcome" where
  \<comment> \<open>what the run has done to the file system and to the store, and how it ends\<close>
  "run w o' =
     (case inputFile o' of
        None \<Rightarrow> ([], Exited 1)
      | Some src \<Rightarrow>
          if src = [] \<or> \<not> input_exists w src then ([], Exited 1)
          else
            (case mkdir_error w (outputDir o') of
               Some msg \<Rightarrow> ([], Rejected msg)
             | None \<Rightarrow>
                 let e0 = [MkDir (outputDir o')];
                     app = (if dryRun o' then None else initFirebase w);
                     dry = (dryRun o' \<or> app = None)
                 in (case parse_file w src of
                       Inl msg \<Rightarrow> (e0, Rejected msg)
                     | Inr wp \<Rightarrow>
                         (case media_stage w o' app dry wp of
                            Inl stop \<Rightarrow> (e0, stop)
                          | Inr (mm, e2) \<Rightarrow>
                              (case transform_all w mm False (wp_pages wp) of
                                 Inl err \<Rightarrow> (e0 @ e2, thrown err)
                               | Inr ds1 \<Rightarrow>
                                   (case transform_all w mm True (wp_posts wp) of
                                      Inl err \<Rightarrow> (e0 @ e2, thrown err)
                                    | Inr ds2 \<Rightarrow>
                                        (case assign_menus (wp_menus wp) ([], ds1 @ ds2) of
                                           (secs, ds) \<Rightarrow>
                                             (case report_stage w o'
                                                     (outputDir o' # created_dirs e2) src wp ds secs mm of
                                                (e4, Some msg) \<Rightarrow> (e0 @ e2 @ e4, Rejected msg)
                                              | (e4, None) \<Rightarrow>
                                                  (e0 @ e2 @ e4 @
                                                   (if dry then []
                                                    else commit_stage o' wp ds secs mm),
                                                   Completed)))))))))"

definition store_write :: "effect \<Rightarrow> bool" where
  "store_write e =
     (case e of CommitSections x \<Rightarrow> True | CommitPages x \<Rightarrow> True | CommitMedia x \<Rightarrow> True
      | _ \<Rightarrow> False)"

definition written_files :: "effect list \<Rightarrow> (string \<times> string) list" where
  \<comment> \<open>the preview files after the run, each with its last content\<close>
  "written_files es =
     fold (\<lambda>e files. case e of WritePage path text \<Rightarrow> AList.update path text files | _ \<Rightarrow> files)
       es []"

text \<open>
  A concrete export, world and command line, for evaluating the model. In the file system
  of this world there are the working directory and the directories the run creates, and
  nothing else; a file can be written where its directory exists.
\<close>

definition path_segments :: "string \<Rightarrow> string list" where
  "path_segments p = filter (\<lambda>s. s \<noteq> []) (js_split ''/'' (posix_normalize p))"

definition posix_write_error :: "string list \<Rightarrow> string \<Rightarrow> string option" where
  \<comment> \<open>\<open>made\<close> are the directories created with \<open>recursive: true\<close>, which creates the
      directories above them as well\<close>
  "posix_write_error made p =
     (let dir = butlast (path_segments p)
      in if dir = [] \<or> list_ex (\<lambda>d. take (length dir) (path_segments d) = dir) made
         then None
         else Some (''ENOENT: no such file or directory, open '' @ p))"

definition about_page :: wp_page where
  "about_page =
     \<lparr>p_title = ''About Us'', p_slug = ''about-us'', p_content = ''<p>Hello</p>'',
      p_excerpt = [], p_status = JString ''published'', p_menuOrder = 0,
      p_featuredImage = KNull, p_createdAt = ''2021-03-04'', p_modifiedAt = ''2021-03-05''\<rparr>"

definition small_export :: wp_data where
  "small_export =
     \<lparr>wp_pages = [about_page], wp_posts = [], wp_attachments = [photo],
      wp_menus = [(''Main Menu'', [])]\<rparr>"

definition world_without_credentials :: world where
  \<comment> \<open>\<open>export.xml\<close> is the only file there is; no service account can be loaded\<close>
  "world_without_credentials =
     \<lparr>input_exists = (\<lambda>f. f = ''export.xml''),
      parse_file = (\<lambda>f. Inr small_export),
      service_account = None,
      net_of = (\<lambda>i. all_fine),
      platform = posix_sys,
      now_iso = ''2024-01-01T00:00:00.000Z'',
      dom = plain_lib,
      mkdir_error = (\<lambda>d. None),
      write_error = posix_write_error\<rparr>"

definition world_with_credentials :: world where
  \<comment> \<open>the same world with a service account for the project \<open>school\<close>\<close>
  "world_with_credentials = world_without_credentials\<lparr>service_account := Some ''school''\<rparr>"

definition cli :: "string \<Rightarrow> bool \<Rightarrow> bool \<Rightarrow> bool \<Rightarrow> options" where
  \<comment> \<open>\<open>node migrate.js <file> [--dry-run] [--download-media] [--upload-media]\<close>\<close>
  "cli file dry dl up =
     \<lparr>inputFile = Some file, dryRun = dry, downloadMedia = dl, uploadMedia = up,
      verbose = False, outputDir = ''./migration/output''\<rparr>"

section \<open>Properties of the status mapping\<close>

lemma mapStatus_table:
  "mapStatus ''publish'' = JString ''published''"
  "mapStatus ''draft'' = JString ''draft''"
  "mapStatus ''pending'' = JString ''draft''"
  "mapStatus ''private'' = JString ''draft''"
  "mapStatus ''future'' = JString ''draft''"
  "mapStatus ''trash'' = JString ''archived''"
  by (simp_all add: mapStatus_def js_get_def statusMap_def)

lemma mapStatus_unknown:
  "s \<notin> fst ` set statusMap \<Longrightarrow> s \<notin> set object_prototype_keys \<Longrightarrow> mapStatus s = JString ''draft''"
  by (simp add: mapStatus_def js_get_def map_of_eq_None_iff[THEN iffD2])

text \<open>
  Claim C6 (status mapping totality): \<open>mapStatus\<close> sends \<open>publish\<close> to \<open>published\<close>, \<open>draft\<close>,
  \<open>pending\<close>, \<open>private\<close> and \<open>future\<close> to \<open>draft\<close>, \<open>trash\<close> to \<open>archived\<close>, and every
  other string to \<open>draft\<close>. The table part holds (\<open>mapStatus_table\<close>), and so does the
  default for every string that is not the name of a member of \<open>Object.prototype\<close>
  (\<open>mapStatus_unknown\<close>). For such a name the lookup \<open>statusMap[wpStatus]\<close> finds the inherited
  member, which is truthy, so the \<open>|| 'draft'\<close> default is not taken: the status
  \<open>constructor\<close>, which is outside the table, is not mapped to \<open>draft\<close>.
\<close>

theorem mapStatus_inherited_member:
  "''constructor'' \<notin> fst ` set statusMap \<and> mapStatus ''constructor'' = JInherited ''constructor''"
  by (simp add: mapStatus_def js_get_def statusMap_def object_prototype_keys_def)

section \<open>Properties of the media migrator\<close>

subsection \<open>Rewriting content with the URL map\<close>

lemma js_split_from_nonempty: "js_split_from sep acc s \<noteq> []"
  by (induction sep acc s rule: js_split_from.induct) auto

lemma js_split_nonempty: "sep \<noteq> [] \<Longrightarrow> js_split sep s \<noteq> []"
  by (simp add: js_split_def js_split_from_nonempty)

lemma js_split_from_absent:
  "\<not> js_includes sep s \<Longrightarrow> js_split_from sep acc s = [rev acc @ s]"
  by (induction s arbitrary: acc) auto

lemma split_join_absent:
  assumes "\<not> js_includes sep s"
  shows "js_join glue (js_split sep s) = s"
proof (cases "sep = []")
  case True
  then have "js_includes sep s" by (cases s) (simp_all add: startsWith_def)
  then show ?thesis using assms by simp
next
  case False
  then show ?thesis using assms by (simp add: js_split_def js_split_from_absent)
qed

lemma updateContentUrls_filter:
  "updateContentUrls m c = updateContentUrls (filter (\<lambda>kv. is_http_key (fst kv)) m) c"
  by (induction m c rule: updateContentUrls.induct) auto

lemma updateContentUrls_absent:
  "\<forall>kv \<in> set m. is_http_key (fst kv) \<longrightarrow> \<not> js_includes (key_string (fst kv)) c \<Longrightarrow> updateContentUrls m c = c"
  by (induction m c rule: updateContentUrls.induct) (auto simp: split_join_absent)

lemma updateContentUrls_example:
  "updateContentUrls
     [(KStr ''http://old.example/photo.jpg'', ''/images/photo.jpg''),
      (KNum ''17'', ''/images/photo.jpg'')]
     ''<img src=\"http://old.example/photo.jpg\"> 17''
   = ''<img src=\"/images/photo.jpg\"> 17''"
  by (simp add: js_split_def startsWith_def)

text \<open>
  Claim C10: \<open>updateContentUrls\<close> substitutes only the keys of the URL map that are strings
  starting with \<open>http\<close>. The result is the same as with every other entry dropped from the
  map; a map whose keys are all numeric attachment ids returns the content as it is, even
  when the content contains the digits of an id; and content in which no \<open>http\<close> key of
  the map occurs is returned verbatim.
\<close>

theorem updateContentUrls_http_keys_only:
  "updateContentUrls m c = updateContentUrls (filter (\<lambda>kv. is_http_key (fst kv)) m) c \<and>
   ((\<forall>kv \<in> set m. \<exists>n. fst kv = KNum n) \<longrightarrow> updateContentUrls m c = c) \<and>
   ((\<forall>kv \<in> set m. is_http_key (fst kv) \<longrightarrow> \<not> js_includes (key_string (fst kv)) c)
      \<longrightarrow> updateContentUrls m c = c)"
proof (intro conjI impI)
  show "updateContentUrls m c = updateContentUrls (filter (\<lambda>kv. is_http_key (fst kv)) m) c"
    by (rule updateContentUrls_filter)
next
  assume "\<forall>kv \<in> set m. \<exists>n. fst kv = KNum n"
  then have "\<forall>kv \<in> set m. is_http_key (fst kv) \<longrightarrow> \<not> js_includes (key_string (fst kv)) c"
    by auto
  then show "updateContentUrls m c = c" by (rule updateContentUrls_absent)
next
  assume "\<forall>kv \<in> set m. is_http_key (fst kv) \<longrightarrow> \<not> js_includes (key_string (fst kv)) c"
  then show "updateContentUrls m c = c" by (rule updateContentUrls_absent)
qed

theorem updateContentUrls_http_keys_only_witness:
  "updateContentUrls [(KNum ''17'', ''/images/photo.jpg'')] ''<p>Room 17</p>'' = ''<p>Room 17</p>'' \<and>
   updateContentUrls
     [(KStr ''http://old.example/photo.jpg'', ''/images/photo.jpg''),
      (KNum ''17'', ''/images/photo.jpg'')] ''<p>Room 17</p>'' = ''<p>Room 17</p>''"
proof
  show "updateContentUrls [(KNum ''17'', ''/images/photo.jpg'')] ''<p>Room 17</p>'' = ''<p>Room 17</p>''"
    using updateContentUrls_http_keys_only
      [of "[(KNum ''17'', ''/images/photo.jpg'')]" "''<p>Room 17</p>''"]
    by simp
next
  have "\<forall>kv \<in> set [(KStr ''http://old.example/photo.jpg'', ''/images/photo.jpg''),
      (KNum ''17'', ''/images/photo.jpg'')].
      is_http_key (fst kv) \<longrightarrow> \<not> js_includes (key_string (fst kv)) ''<p>Room 17</p>''"
    by (simp add: startsWith_def)
  then show "updateContentUrls
     [(KStr ''http://old.example/photo.jpg'', ''/images/photo.jpg''),
      (KNum ''17'', ''/images/photo.jpg'')] ''<p>Room 17</p>'' = ''<p>Room 17</p>''"
    using updateContentUrls_http_keys_only
      [of "[(KStr ''http://old.example/photo.jpg'', ''/images/photo.jpg''),
      (KNum ''17'', ''/images/photo.jpg'')]" "''<p>Room 17</p>''"]
    by blast
qed

subsection \<open>Statistics of a migration\<close>

lemma processAttachment_frame:
  "opts (processAttachment y m aw) = opts m \<and> storage (processAttachment y m aw) = storage m"
  by (simp add: processAttachment_def Let_def bump_skipped_def bump_downloaded_def
      bump_uploaded_def record_failure_def set_urls_def split: option.splits)

lemma chunk_fuel_concat:
  "0 < sz \<Longrightarrow> length xs \<le> k \<Longrightarrow> \<exists>bs. chunk_fuel k sz xs = Some bs \<and> concat bs = xs"
proof (induction k sz xs rule: chunk_fuel.induct)
  case (1 sz xs)
  then show ?case by simp
next
  case (2 k sz xs)
  show ?case
  proof (cases "xs = []")
    case True
    then show ?thesis by simp
  next
    case False
    with 2 have "length (drop sz xs) \<le> k" by (cases xs) auto
    with 2 False obtain bs where "chunk_fuel k sz (drop sz xs) = Some bs" "concat bs = drop sz xs"
      by blast
    with False show ?thesis by simp
  qed
qed

lemma fold_ordered_batches:
  "fold (\<lambda>batch st. fold f (g batch) st) bs st = fold f (concat (map g bs)) st"
  by (induction bs arbitrary: st) auto

lemma mset_completion_order: "mset (concat (map completion_order bs)) = mset (concat bs)"
  by (induction bs) (simp_all add: completion_order_def)

lemma migrate_fold:
  assumes "0 < concurrency (opts m)"
  shows "\<exists>order. mset order = mset inputs \<and>
     migrate y m inputs =
       Some (fold (\<lambda>aw st. processAttachment y st aw) order
               (m\<lparr>mstats := (mstats m)\<lparr>total := length inputs\<rparr>\<rparr>))"
proof -
  obtain bs where bs: "chunk_fuel (length inputs) (concurrency (opts m)) inputs = Some bs"
    "concat bs = inputs"
    using chunk_fuel_concat[OF assms, of inputs "length inputs"] by auto
  have "mset (concat (map completion_order bs)) = mset inputs"
    using mset_completion_order[of bs] bs(2) by simp
  moreover have "migrate y m inputs =
       Some (fold (\<lambda>aw st. processAttachment y st aw) (concat (map completion_order bs))
               (m\<lparr>mstats := (mstats m)\<lparr>total := length inputs\<rparr>\<rparr>))"
    using bs(1) by (simp add: migrate_def chunk_def fold_ordered_batches Let_def)
  ultimately show ?thesis by blast
qed

lemma length_filter_mset:
  "mset xs = mset ys \<Longrightarrow> length (filter P xs) = length (filter P ys)"
  by (metis mset_filter size_mset)

lemma mset_concat_map:
  assumes "mset xs = mset ys"
  shows "mset (concat (map f xs)) = mset (concat (map f ys))"
proof -
  have "\<And>zs. mset (concat (map f zs)) = sum_mset (image_mset (\<lambda>x. mset (f x)) (mset zs))"
    by (induct_tac zs) simp_all
  then show ?thesis using assms by simp
qed

lemma upload_fails_cong:
  "opts m' = opts m \<Longrightarrow> storage m' = storage m \<Longrightarrow> upload_fails m' = upload_fails m"
  by (auto simp: upload_fails_def fun_eq_iff)

lemma process_stats:
  "accounted (mstats (processAttachment y m aw)) =
     accounted (mstats m) + 1 + (if upload_fails m aw then 1 else 0)"
  "uploaded (mstats (processAttachment y m aw)) + downloaded (mstats m)
     \<le> downloaded (mstats (processAttachment y m aw)) + uploaded (mstats m)"
  "total (mstats (processAttachment y m aw)) = total (mstats m)"
  by (auto simp: processAttachment_def Let_def bump_skipped_def bump_downloaded_def
      bump_uploaded_def record_failure_def set_urls_def accounted_def upload_fails_def
      split: option.splits)

lemma fold_stats:
  "accounted (mstats (fold (\<lambda>aw st. processAttachment y st aw) inputs m)) =
      accounted (mstats m) + length inputs + length (filter (upload_fails m) inputs)
   \<and> uploaded (mstats (fold (\<lambda>aw st. processAttachment y st aw) inputs m)) + downloaded (mstats m)
      \<le> downloaded (mstats (fold (\<lambda>aw st. processAttachment y st aw) inputs m)) + uploaded (mstats m)
   \<and> total (mstats (fold (\<lambda>aw st. processAttachment y st aw) inputs m)) = total (mstats m)"
proof (induction inputs arbitrary: m)
  case Nil
  then show ?case by simp
next
  case (Cons aw inputs)
  define m1 where "m1 = processAttachment y m aw"
  define m2 where "m2 = fold (\<lambda>aw st. processAttachment y st aw) inputs m1"
  have c: "upload_fails m1 = upload_fails m"
    unfolding m1_def using processAttachment_frame[of y m aw] by (intro upload_fails_cong) simp_all
  have f: "fold (\<lambda>aw st. processAttachment y st aw) (aw # inputs) m = m2"
    by (simp add: m1_def m2_def)
  have s1: "accounted (mstats m1) = accounted (mstats m) + 1 + (if upload_fails m aw then 1 else 0)"
    and s2: "uploaded (mstats m1) + downloaded (mstats m) \<le> downloaded (mstats m1) + uploaded (mstats m)"
    and s3: "total (mstats m1) = total (mstats m)"
    unfolding m1_def by (rule process_stats)+
  have i1: "accounted (mstats m2) = accounted (mstats m1) + length inputs + length (filter (upload_fails m) inputs)"
    and i2: "uploaded (mstats m2) + downloaded (mstats m1) \<le> downloaded (mstats m2) + uploaded (mstats m1)"
    and i3: "total (mstats m2) = total (mstats m1)"
    using Cons.IH[of m1] unfolding m2_def c by (rule conjunct1, rule conjunct2[THEN conjunct1], rule conjunct2[THEN conjunct2])
  have "accounted (mstats m2) =
      accounted (mstats m) + length (aw # inputs) + length (filter (upload_fails m) (aw # inputs))"
    using s1 i1 by simp
  moreover have "uploaded (mstats m2) + downloaded (mstats m) \<le> downloaded (mstats m2) + uploaded (mstats m)"
    using s2 i2 by linarith
  moreover have "total (mstats m2) = total (mstats m)"
    using s3 i3 by simp
  ultimately show ?case unfolding f by (intro conjI)
qed

text \<open>
  Claim C3 (media statistics), as amended: on a migrator with fresh statistics, \<open>migrate\<close>
  returns, \<open>total\<close> is the number N of attachments, \<open>uploaded \<le> downloaded\<close>, and
  \<open>downloaded + skipped + failed\<close> equals N plus the number of attachments whose download
  succeeded and whose upload then raised: such an attachment is counted as downloaded and
  as failed. The sum is N when no upload fails, in particular when no blob store is
  attached.
\<close>

theorem migrate_stats_accounting:
  assumes "0 < concurrency (opts m)" and "mstats m = fresh_stats"
  shows "\<exists>m'. migrate y m inputs = Some m' \<and>
           total (mstats m') = length inputs \<and>
           accounted (mstats m') = length inputs + length (filter (upload_fails m) inputs) \<and>
           uploaded (mstats m') \<le> downloaded (mstats m')"
proof -
  let ?m0 = "m\<lparr>mstats := (mstats m)\<lparr>total := length inputs\<rparr>\<rparr>"
  have u: "upload_fails ?m0 = upload_fails m" by (intro upload_fails_cong) simp_all
  have z: "accounted (mstats ?m0) = 0" "uploaded (mstats ?m0) = 0" "downloaded (mstats ?m0) = 0"
    "total (mstats ?m0) = length inputs"
    using assms(2) by (simp_all add: fresh_stats_def accounted_def)
  obtain order where o: "mset order = mset inputs"
    and mig: "migrate y m inputs = Some (fold (\<lambda>aw st. processAttachment y st aw) order ?m0)"
    using migrate_fold[OF assms(1), of inputs y] by blast
  have l: "length order = length inputs" using o by (rule mset_eq_length)
  have f: "length (filter (upload_fails m) order) = length (filter (upload_fails m) inputs)"
    using o by (rule length_filter_mset)
  show ?thesis
    using fold_stats[of y order ?m0] unfolding mig
    by (simp only: u z l f) simp
qed

theorem migrate_stats_accounting_witness:
  "\<exists>m'. migrate posix_sys (new_migrator None None None None)
           [(photo, all_fine), (logo, not_found)] = Some m' \<and>
         total (mstats m') = 2 \<and> accounted (mstats m') = 2 \<and>
         uploaded (mstats m') \<le> downloaded (mstats m')"
  using migrate_stats_accounting
    [of "new_migrator None None None None" posix_sys "[(photo, all_fine), (logo, not_found)]"]
  by (simp add: new_migrator_def fresh_stats_def upload_fails_def numeral_2_eq_2)

text \<open>
  The claim as stated (\<open>downloaded + skipped + failed = N\<close> whatever fails) does not hold:
  one attachment, a blob store attached, the download succeeds and the upload is refused.
\<close>

theorem migrate_stats_counterexample:
  "map_option (accounted \<circ> mstats)
     (migrate posix_sys (initStorage (new_migrator None (Some ''bucket'') None None))
        [(photo, upload_refused)]) = Some 2 \<and>
   length [(photo, upload_refused)] = 1"
  by (simp add: migrate_def chunk_def new_migrator_def initStorage_def processAttachment_def
      completion_order_def photo_def upload_refused_def Let_def bump_downloaded_def
      record_failure_def accounted_def)

subsection \<open>Population of the URL map\<close>

lemma map_set_fresh: "k \<notin> fst ` set m \<Longrightarrow> map_set k v m = m @ [(k, v)]"
  unfolding map_set_def by (induction m) auto

lemma entries_cong:
  "opts m' = opts m \<Longrightarrow> storage m' = storage m \<Longrightarrow> entries y m' aw = entries y m aw"
  by (simp add: entries_def mapped_def new_url_def localPath_def getStorageUrl_def
      uploadedUrl_def bucket_text_def Let_def)

lemma process_urlMap:
  assumes "KStr (att_url (fst aw)) \<notin> fst ` set (urlMap m)"
    and "att_id (fst aw) \<notin> fst ` set (urlMap m)"
    and "att_id (fst aw) \<noteq> KStr (att_url (fst aw))"
  shows "urlMap (processAttachment y m aw) = urlMap m @ entries y m aw"
proof -
  have s: "\<And>u m'. urlMap m' = urlMap m \<Longrightarrow>
      urlMap (set_urls (fst aw) u m') = urlMap m @ [(KStr (att_url (fst aw)), u), (att_id (fst aw), u)]"
    using assms by (simp add: set_urls_def map_set_fresh)
  show ?thesis
    by (auto simp: processAttachment_def Let_def s entries_def mapped_def new_url_def
        bump_skipped_def bump_downloaded_def bump_uploaded_def record_failure_def
        uploadedUrl_def bucket_text_def localPath_def getStorageUrl_def
        split: option.splits)
qed

lemma entries_keys:
  "map (\<lambda>e. key_string (fst e)) (entries y m aw) = (if mapped m aw then keys_of (fst aw) else [])"
  by (simp add: entries_def keys_of_def mapped_def)

lemma fold_urlMap:
  assumes "distinct (concat (map (\<lambda>aw. keys_of (fst aw)) inputs))"
    and "key_string ` fst ` set (urlMap m) \<inter> set (concat (map (\<lambda>aw. keys_of (fst aw)) inputs)) = {}"
  shows "urlMap (fold (\<lambda>aw st. processAttachment y st aw) inputs m)
         = urlMap m @ concat (map (entries y m) inputs)"
  using assms
proof (induction inputs arbitrary: m)
  case Nil
  then show ?case by simp
next
  case (Cons aw inputs)
  define m1 where "m1 = processAttachment y m aw"
  have fr: "opts m1 = opts m" "storage m1 = storage m"
    unfolding m1_def using processAttachment_frame[of y m aw] by simp_all
  have idk: "key_string (att_id (fst aw)) \<in> set (keys_of (fst aw))"
    by (simp add: keys_of_def)
  have a1: "att_id (fst aw) \<notin> fst ` set (urlMap m)"
    using Cons.prems(2) idk by force
  have a2: "KStr (att_url (fst aw)) \<notin> fst ` set (urlMap m) \<or> \<not> mapped m aw"
  proof (cases "att_url (fst aw) = []")
    case True
    then show ?thesis by (simp add: mapped_def)
  next
    case False
    then have "key_string (KStr (att_url (fst aw))) \<in> set (keys_of (fst aw))"
      by (simp add: keys_of_def)
    then show ?thesis using Cons.prems(2) by force
  qed
  have a3: "att_id (fst aw) \<noteq> KStr (att_url (fst aw)) \<or> \<not> mapped m aw"
  proof (cases "att_url (fst aw) = []")
    case True
    then show ?thesis by (simp add: mapped_def)
  next
    case False
    then have "distinct [att_url (fst aw), key_string (att_id (fst aw))]"
      using Cons.prems(1) by (simp add: keys_of_def)
    then show ?thesis by auto
  qed
  have u1: "urlMap m1 = urlMap m @ entries y m aw"
  proof (cases "mapped m aw")
    case True
    then show ?thesis unfolding m1_def using a1 a2 a3 by (intro process_urlMap) auto
  next
    case False
    then show ?thesis unfolding m1_def
      by (auto simp: processAttachment_def Let_def entries_def mapped_def
        bump_skipped_def bump_downloaded_def bump_uploaded_def record_failure_def
        split: option.splits)
  qed
  have ks: "key_string ` fst ` set (urlMap m1) \<subseteq>
      key_string ` fst ` set (urlMap m) \<union> set (keys_of (fst aw))"
  proof -
    have "key_string ` fst ` set (entries y m aw) = set (map (\<lambda>e. key_string (fst e)) (entries y m aw))"
      by (simp add: image_image)
    also have "\<dots> \<subseteq> set (keys_of (fst aw))" unfolding entries_keys by auto
    finally have sub: "key_string ` fst ` set (entries y m aw) \<subseteq> set (keys_of (fst aw))" .
    have "key_string ` fst ` set (urlMap m1) =
        key_string ` fst ` set (urlMap m) \<union> key_string ` fst ` set (entries y m aw)"
      unfolding u1 by (simp add: image_Un)
    also have "\<dots> \<subseteq> key_string ` fst ` set (urlMap m) \<union> set (keys_of (fst aw))"
      by (rule Un_mono[OF subset_refl sub])
    finally show ?thesis .
  qed
  have d: "distinct (concat (map (\<lambda>aw. keys_of (fst aw)) inputs))"
    and dj: "set (keys_of (fst aw)) \<inter> set (concat (map (\<lambda>aw. keys_of (fst aw)) inputs)) = {}"
    using Cons.prems(1) by auto
  have p2: "key_string ` fst ` set (urlMap m) \<inter> set (concat (map (\<lambda>aw. keys_of (fst aw)) inputs)) = {}"
    using Cons.prems(2) by (simp add: Int_Un_distrib)
  have pre: "key_string ` fst ` set (urlMap m1) \<inter> set (concat (map (\<lambda>aw. keys_of (fst aw)) inputs)) = {}"
    using ks dj p2 by (meson Int_emptyI disjoint_iff subsetD UnE)
  have e: "\<And>bw. entries y m1 bw = entries y m bw"
    using fr by (intro entries_cong) simp_all
  have "urlMap (fold (\<lambda>aw st. processAttachment y st aw) inputs m1)
         = urlMap m1 @ concat (map (entries y m1) inputs)"
    using Cons.IH[OF d pre] .
  then show ?case unfolding u1 e by (simp add: m1_def)
qed

lemma entries_length:
  "length (concat (map (entries y m) inputs)) = 2 * length (filter (mapped m) inputs)"
  by (induction inputs) (auto simp: entries_def)

lemma entries_fst:
  "fst ` set (entries y m aw) =
     (if mapped m aw then {KStr (att_url (fst aw)), att_id (fst aw)} else {})"
  by (cases "mapped m aw") (simp_all add: entries_def)

lemma entries_key_strings:
  "map (\<lambda>e. key_string (fst e)) (concat (map (entries y m) inputs)) =
     concat (map (\<lambda>aw. keys_of (fst aw)) (filter (mapped m) inputs))"
  by (induction inputs) (simp_all add: entries_keys)

lemma entries_key_set:
  "fst ` set (concat (map (entries y m) inputs)) =
     (\<Union>aw \<in> set (filter (mapped m) inputs). {KStr (att_url (fst aw)), att_id (fst aw)})"
proof (induction inputs)
  case Nil
  then show ?case by simp
next
  case (Cons aw inputs)
  have "fst ` set (concat (map (entries y m) (aw # inputs))) =
      fst ` set (entries y m aw) \<union> fst ` set (concat (map (entries y m) inputs))"
    by (simp add: image_Un)
  then show ?case unfolding Cons.IH entries_fst by auto
qed

lemma distinct_concat_filter:
  "distinct (concat (map f xs)) \<Longrightarrow> distinct (concat (map f (filter P xs)))"
  by (induction xs) auto

lemma keys_unique:
  assumes "distinct (concat (map (\<lambda>aw. keys_of (fst aw)) inputs))"
    and "aw \<in> set inputs" and "bw \<in> set inputs"
    and "s \<in> set (keys_of (fst aw))" and "s \<in> set (keys_of (fst bw))"
  shows "aw = bw"
  using assms
proof (induction inputs)
  case Nil
  then show ?case by simp
next
  case (Cons x xs)
  have dj: "\<And>cw t. cw \<in> set xs \<Longrightarrow> t \<in> set (keys_of (fst x)) \<Longrightarrow> t \<notin> set (keys_of (fst cw))"
    using Cons.prems(1) by auto
  show ?case
  proof (cases "aw = x")
    case True
    then show ?thesis using Cons.prems dj[of bw s] by auto
  next
    case False
    then show ?thesis using Cons dj[of aw s] by auto
  qed
qed

lemma entries_distinct:
  assumes "distinct (concat (map (\<lambda>aw. keys_of (fst aw)) inputs))"
  shows "distinct (map fst (concat (map (entries y m) inputs)))"
proof -
  have "distinct (map (\<lambda>e. key_string (fst e)) (concat (map (entries y m) inputs)))"
    unfolding entries_key_strings using assms by (rule distinct_concat_filter)
  then have "distinct (map key_string (map fst (concat (map (entries y m) inputs))))"
    by (simp add: comp_def)
  then show ?thesis by (simp only: distinct_map)
qed

lemma new_url_nonempty: "new_url y m aw \<noteq> []"
  by (simp add: new_url_def Let_def getStorageUrl_def imagesUrl_def uploadedUrl_def)

lemma entries_lookup:
  assumes "distinct (concat (map (\<lambda>aw. keys_of (fst aw)) inputs))"
    and "aw \<in> set inputs" and "mapped m aw"
  shows "map_of (concat (map (entries y m) inputs)) (KStr (att_url (fst aw))) = Some (new_url y m aw)"
    and "map_of (concat (map (entries y m) inputs)) (att_id (fst aw)) = Some (new_url y m aw)"
proof -
  have "set (entries y m aw) \<subseteq> set (concat (map (entries y m) inputs))"
    using assms(2) by auto
  then have "(KStr (att_url (fst aw)), new_url y m aw) \<in> set (concat (map (entries y m) inputs))"
    and "(att_id (fst aw), new_url y m aw) \<in> set (concat (map (entries y m) inputs))"
    using assms(3) by (auto simp: entries_def)
  then show "map_of (concat (map (entries y m) inputs)) (KStr (att_url (fst aw))) = Some (new_url y m aw)"
    and "map_of (concat (map (entries y m) inputs)) (att_id (fst aw)) = Some (new_url y m aw)"
    using entries_distinct[OF assms(1), of y m] by (simp_all add: map_of_is_SomeI)
qed

lemma entries_miss:
  assumes "distinct (concat (map (\<lambda>aw. keys_of (fst aw)) inputs))"
    and "\<forall>aw \<in> set inputs. key_string (att_id (fst aw)) \<noteq> []"
    and "aw \<in> set inputs" and "\<not> mapped m aw"
    and "s = [] \<or> s \<in> set (keys_of (fst aw))"
    and "key_string k = s"
  shows "map_of (concat (map (entries y m) inputs)) k = None"
proof (rule ccontr)
  assume "map_of (concat (map (entries y m) inputs)) k \<noteq> None"
  then have "k \<in> fst ` set (concat (map (entries y m) inputs))"
    by (simp add: map_of_eq_None_iff)
  then obtain bw where bw: "bw \<in> set inputs" "mapped m bw"
    "k = KStr (att_url (fst bw)) \<or> k = att_id (fst bw)"
    unfolding entries_key_set by auto
  have ne: "att_url (fst bw) \<noteq> []" using bw(2) by (simp add: mapped_def)
  have kin: "key_string k \<in> set (keys_of (fst bw))"
    using bw(3) ne by (auto simp: keys_of_def)
  have "key_string k \<noteq> []" using bw(3) ne assms(2) bw(1) by auto
  then have "s \<in> set (keys_of (fst aw))" using assms(5,6) by simp
  then have "aw = bw" using keys_unique[OF assms(1) assms(3) bw(1), of s] kin assms(6) by simp
  then show False using assms(4) bw(2) by simp
qed

lemma getNewUrl_hit:
  "map_of M k = Some u \<Longrightarrow> u \<noteq> [] \<Longrightarrow> getNewUrl M k = Some u"
  by (simp add: getNewUrl_def map_get_def or_else_def)

lemma getNewUrl_miss:
  "map_of M k = None \<Longrightarrow> map_of M (KStr (key_string k)) = None \<Longrightarrow> getNewUrl M k = None"
  by (simp add: getNewUrl_def map_get_def or_else_def)

text \<open>
  Claim C7 (URL-map population), as amended. Take attachments whose urls and ids are
  pairwise distinct as text, an id and a url also differing from each other, and whose ids
  are not empty as text; attachments without a url share the empty url. On a migrator
  with an empty map \<open>migrate\<close> returns, and every attachment that was processed without
  error and had a source URL contributes exactly two keys, its url and its id, both bound
  to the same new URL, which \<open>getNewUrl\<close> returns for either key; an attachment that
  failed or had no source URL contributes no key, and \<open>getNewUrl\<close> on its url or its id
  returns \<open>null\<close>. The text of a key is what \<open>String\<close> makes of it, as in the fallback
  \<open>urlMap.get(String(idOrUrl))\<close> of \<open>getNewUrl\<close>.
\<close>

theorem urlMap_population:
  assumes "0 < concurrency (opts m)" and "urlMap m = []"
    and "distinct (concat (map (\<lambda>aw. keys_of (fst aw)) inputs))"
    and "\<forall>aw \<in> set inputs. key_string (att_id (fst aw)) \<noteq> []"
  shows "\<exists>m'. migrate y m inputs = Some m' \<and>
     length (urlMap m') = 2 * length (filter (mapped m) inputs) \<and>
     fst ` set (urlMap m') =
       (\<Union>aw \<in> set (filter (mapped m) inputs). {KStr (att_url (fst aw)), att_id (fst aw)}) \<and>
     (\<forall>aw \<in> set inputs.
        if mapped m aw
        then map_get (urlMap m') (KStr (att_url (fst aw))) = Some (new_url y m aw) \<and>
             map_get (urlMap m') (att_id (fst aw)) = Some (new_url y m aw) \<and>
             getNewUrl (urlMap m') (KStr (att_url (fst aw))) = Some (new_url y m aw) \<and>
             getNewUrl (urlMap m') (att_id (fst aw)) = Some (new_url y m aw)
        else getNewUrl (urlMap m') (KStr (att_url (fst aw))) = None \<and>
             getNewUrl (urlMap m') (att_id (fst aw)) = None)"
proof -
  define m0 where "m0 = m\<lparr>mstats := (mstats m)\<lparr>total := length inputs\<rparr>\<rparr>"
  obtain order where o: "mset order = mset inputs"
    and mig0: "migrate y m inputs = Some (fold (\<lambda>aw st. processAttachment y st aw) order m0)"
    unfolding m0_def using migrate_fold[OF assms(1), of inputs y] by blast
  define m' where "m' = fold (\<lambda>aw st. processAttachment y st aw) order m0"
  define M where "M = concat (map (entries y m) order)"
  have mig: "migrate y m inputs = Some m'"
    unfolding m'_def by (rule mig0)
  have so: "set order = set inputs" using o by (rule mset_eq_setD)
  have d: "distinct (concat (map (\<lambda>aw. keys_of (fst aw)) order))"
    using assms(3) mset_concat_map[OF o, of "\<lambda>aw. keys_of (fst aw)"]
    by (metis mset_eq_imp_distinct_iff)
  have ne: "\<forall>aw \<in> set order. key_string (att_id (fst aw)) \<noteq> []"
    using assms(4) so by simp
  have e: "\<And>aw. entries y m0 aw = entries y m aw"
    unfolding m0_def by (intro entries_cong) simp_all
  have "urlMap m' = urlMap m0 @ concat (map (entries y m0) order)"
    unfolding m'_def by (rule fold_urlMap[OF d]) (simp add: m0_def assms(2))
  then have um: "urlMap m' = M"
    unfolding e M_def by (simp add: m0_def assms(2))
  have "length M = 2 * length (filter (mapped m) order)"
    unfolding M_def by (rule entries_length)
  then have len: "length M = 2 * length (filter (mapped m) inputs)"
    using length_filter_mset[OF o, of "mapped m"] by simp
  have "fst ` set M =
       (\<Union>aw \<in> set (filter (mapped m) order). {KStr (att_url (fst aw)), att_id (fst aw)})"
    unfolding M_def by (rule entries_key_set)
  then have keys: "fst ` set M =
       (\<Union>aw \<in> set (filter (mapped m) inputs). {KStr (att_url (fst aw)), att_id (fst aw)})"
    using so by simp
  have hit: "map_get M (KStr (att_url (fst aw))) = Some (new_url y m aw) \<and>
             map_get M (att_id (fst aw)) = Some (new_url y m aw) \<and>
             getNewUrl M (KStr (att_url (fst aw))) = Some (new_url y m aw) \<and>
             getNewUrl M (att_id (fst aw)) = Some (new_url y m aw)"
    if "aw \<in> set inputs" "mapped m aw" for aw
  proof -
    have i: "aw \<in> set order" using that(1) so by simp
    show ?thesis
      using entries_lookup[OF d i that(2), of y] new_url_nonempty[of y m aw]
      unfolding M_def by (simp add: getNewUrl_hit map_get_def)
  qed
  have miss: "getNewUrl M (KStr (att_url (fst aw))) = None \<and> getNewUrl M (att_id (fst aw)) = None"
    if "aw \<in> set inputs" "\<not> mapped m aw" for aw
  proof -
    have i: "aw \<in> set order" using that(1) so by simp
    have u: "att_url (fst aw) = [] \<or> att_url (fst aw) \<in> set (keys_of (fst aw))"
      by (simp add: keys_of_def)
    have k: "key_string (att_id (fst aw)) = [] \<or> key_string (att_id (fst aw)) \<in> set (keys_of (fst aw))"
      by (simp add: keys_of_def)
    have "map_of M (KStr (att_url (fst aw))) = None"
      unfolding M_def by (rule entries_miss[OF d ne i that(2) u]) simp
    moreover have "map_of M (att_id (fst aw)) = None"
      unfolding M_def by (rule entries_miss[OF d ne i that(2) k]) simp
    moreover have "map_of M (KStr (key_string (att_id (fst aw)))) = None"
      unfolding M_def by (rule entries_miss[OF d ne i that(2) k]) simp
    ultimately show ?thesis by (simp add: getNewUrl_miss)
  qed
  show ?thesis
    by (rule exI[of _ m']) (simp add: mig um len keys hit miss)
qed

theorem urlMap_population_witness:
  "\<exists>m'. migrate posix_sys (new_migrator None None None None)
           [(photo, all_fine), (logo, not_found)] = Some m' \<and>
     length (urlMap m') = 2 \<and>
     getNewUrl (urlMap m') (KStr (att_url photo)) = Some ''/images/photo.jpg'' \<and>
     getNewUrl (urlMap m') (KNum ''17'') = Some ''/images/photo.jpg'' \<and>
     getNewUrl (urlMap m') (KStr (att_url logo)) = None \<and>
     getNewUrl (urlMap m') (KNum ''18'') = None"
proof -
  let ?m = "new_migrator None None None None"
  let ?inputs = "[(photo, all_fine), (logo, not_found)]"
  have h1: "0 < concurrency (opts ?m)" by (simp add: new_migrator_def)
  have h2: "urlMap ?m = []" by (simp add: new_migrator_def)
  have h3: "distinct (concat (map (\<lambda>aw. keys_of (fst aw)) ?inputs))" by code_simp
  have h4: "\<forall>aw \<in> set ?inputs. key_string (att_id (fst aw)) \<noteq> []" by code_simp
  have p: "mapped ?m (photo, all_fine)" "\<not> mapped ?m (logo, not_found)"
    "new_url posix_sys ?m (photo, all_fine) = ''/images/photo.jpg''"
    "att_id photo = KNum ''17''" "att_id logo = KNum ''18''"
    by code_simp+
  obtain m' where m': "migrate posix_sys ?m ?inputs = Some m'"
     "length (urlMap m') = 2 * length (filter (mapped ?m) ?inputs)"
     "\<forall>aw \<in> set ?inputs.
        if mapped ?m aw
        then map_get (urlMap m') (KStr (att_url (fst aw))) = Some (new_url posix_sys ?m aw) \<and>
             map_get (urlMap m') (att_id (fst aw)) = Some (new_url posix_sys ?m aw) \<and>
             getNewUrl (urlMap m') (KStr (att_url (fst aw))) = Some (new_url posix_sys ?m aw) \<and>
             getNewUrl (urlMap m') (att_id (fst aw)) = Some (new_url posix_sys ?m aw)
        else getNewUrl (urlMap m') (KStr (att_url (fst aw))) = None \<and>
             getNewUrl (urlMap m') (att_id (fst aw)) = None"
    using urlMap_population[OF h1 h2 h3 h4, of posix_sys] by blast
  show ?thesis
    using m' p by (intro exI[of _ m']) simp
qed

text \<open>
  The claim as stated, with urls and ids distinct as values, does not hold: the number 17
  and the string "17" are different ids and different keys of the map, but \<open>getNewUrl\<close>
  also looks up the text of its argument. Of two attachments with these ids, the first is
  not found and the second is downloaded: \<open>getNewUrl\<close> on the id of the failed one returns
  the new URL of the other.
\<close>

theorem getNewUrl_failed_id_counterexample:
  "map_option (\<lambda>m. (map fst (urlMap m), getNewUrl (urlMap m) (att_id photo)))
     (migrate posix_sys (new_migrator None None None None)
        [(photo, not_found), (logo\<lparr>att_id := KStr ''17''\<rparr>, all_fine)])
   = Some ([KStr ''http://old.example/wp-content/uploads/logo.png'', KStr ''17''],
           Some ''/images/logo.png'') \<and>
   att_id photo = KNum ''17'' \<and> KNum ''17'' \<noteq> KStr ''17'' \<and> att_url photo \<noteq> att_url logo"
  by code_simp

text \<open>Three attachments, the second of which is not found (scenario B of the specification).\<close>

lemma scenario_B:
  "map_option (\<lambda>m. (total (mstats m), downloaded (mstats m), uploaded (mstats m),
                     skipped (mstats m), failed (mstats m), length (urlMap m)))
     (migrate posix_sys (new_migrator None None None None)
        [(photo, all_fine), (logo, not_found),
         (photo\<lparr>att_id := KNum ''19'', att_url := ''http://old.example/x.gif'',
                att_filename := ''x.gif''\<rparr>, all_fine)])
   = Some (3, 2, 0, 0, 1, 4)"
  by code_simp

section \<open>Properties of the content cleaner\<close>

subsection \<open>Fixed points\<close>

lemma remove_matching_none:
  "\<forall>e \<in> set (elements n). \<not> P e \<Longrightarrow> remove_matching P n = [n]"
proof (induction P n rule: remove_matching.induct)
  case (1 P t as cs)
  have "\<And>c. c \<in> set cs \<Longrightarrow> remove_matching P c = [c]"
    using 1 by auto
  then have "concat (map (remove_matching P) cs) = cs"
    by (induction cs) auto
  then show ?case using 1(2) by simp
qed simp_all

lemma remove_matching_list_none:
  "\<forall>e \<in> set (descendants ns). \<not> P e \<Longrightarrow> concat (map (remove_matching P) ns) = ns"
  by (induction ns) (auto simp: descendants_def remove_matching_none)

lemma remove_fold_unchanged:
  "fold (\<lambda>tag (ns', removed).
             (concat (map (remove_matching (is_empty_element tag)) ns'),
              removed \<or> (\<exists>e \<in> set (descendants ns'). is_empty_element tag e)))
          tags (ns, r) = (ns2, False) \<Longrightarrow> ns2 = ns \<and> \<not> r"
proof (induction tags arbitrary: ns r)
  case Nil
  then show ?case by simp
next
  case (Cons tag tags)
  define ns1 where "ns1 = concat (map (remove_matching (is_empty_element tag)) ns)"
  define r1 where "r1 = (r \<or> (\<exists>e \<in> set (descendants ns). is_empty_element tag e))"
  from Cons.prems have "fold (\<lambda>tag (ns', removed).
             (concat (map (remove_matching (is_empty_element tag)) ns'),
              removed \<or> (\<exists>e \<in> set (descendants ns'). is_empty_element tag e)))
          tags (ns1, r1) = (ns2, False)"
    by (simp add: ns1_def r1_def)
  from Cons.IH[OF this] have a: "ns2 = ns1" "\<not> r1" by simp_all
  from a(2) have "\<not> r" "\<forall>e \<in> set (descendants ns). \<not> is_empty_element tag e"
    by (auto simp: r1_def)
  then show ?case using a(1) by (simp add: ns1_def remove_matching_list_none)
qed

lemma remove_round_unchanged: "remove_round ns = (ns', False) \<Longrightarrow> ns' = ns"
  unfolding remove_round_def using remove_fold_unchanged[of emptyTags ns False ns'] by simp

lemma removeEmptyElements_stable:
  "remove_round (removeEmptyElements ns) = (removeEmptyElements ns, False)"
proof (induction ns rule: removeEmptyElements.induct)
  case (1 ns)
  obtain ns' removed where r: "remove_round ns = (ns', removed)" by (cases "remove_round ns")
  show ?case
  proof (cases removed)
    case True
    then have "removeEmptyElements ns = removeEmptyElements ns'"
      using r by (subst removeEmptyElements.simps) simp
    then show ?thesis using 1[OF r[symmetric]] True by simp
  next
    case False
    then have e: "removeEmptyElements ns = ns'"
      using r by (subst removeEmptyElements.simps) simp
    have "ns' = ns" using r False remove_round_unchanged by simp
    then show ?thesis using e r False by simp
  qed
qed

lemma setAttribute_get:
  "getAttribute (setAttribute k v as) k' = (if k' = k then Some v else getAttribute as k')"
  by (simp add: getAttribute_def setAttribute_def update_conv')

lemma setAttribute_same:
  "getAttribute as k = Some v \<Longrightarrow> setAttribute k v as = as"
  unfolding getAttribute_def setAttribute_def by (induction as) (auto split: if_splits)

lemma semanticize_attrs_idem:
  "semanticize_attrs t (semanticize_attrs t as) = semanticize_attrs t as"
  by (auto simp: semanticize_attrs_def reflect_def setAttribute_get setAttribute_same
      split: option.splits)

lemma semanticize_node_idem: "semanticize_node (semanticize_node n) = semanticize_node n"
  by (induction n rule: semanticize_node.induct) (simp_all add: semanticize_attrs_idem)

text \<open>
  Claim C1 (idempotent cleaning), as amended: the last two steps of the cleaner on the
  document are idempotent. \<open>removeEmptyElements\<close> ends in a fixed point, so that applying
  it to its own result changes nothing, and so does \<open>semanticize\<close>. The cleaner as a
  whole is not idempotent.
\<close>

theorem last_steps_idempotent:
  "removeEmptyElements (removeEmptyElements ns) = removeEmptyElements ns \<and>
   semanticize_step (semanticize_step ns) = semanticize_step ns"
proof
  show "removeEmptyElements (removeEmptyElements ns) = removeEmptyElements ns"
    using removeEmptyElements_stable[of ns]
    by (subst removeEmptyElements.simps) simp
  show "semanticize_step (semanticize_step ns) = semanticize_step ns"
    by (simp add: semanticize_step_def semanticize_node_idem)
qed

text \<open>
  The claim as stated, \<open>clean(clean(html)) = clean(html)\<close> for every input, does not hold:
  \<open>unwrapDivs\<close> runs before \<open>removeEmptyElements\<close>, so a \<open>div\<close> with a paragraph and an
  empty paragraph keeps its wrapper in the first pass and loses it in the second.
\<close>

theorem clean_twice_counterexample:
  "clean plain_lib default_options ''<div><p>x</p><p></p></div>'' = Inr ''<div><p>x</p></div>'' \<and>
   clean plain_lib default_options ''<div><p>x</p></div>'' = Inr ''<p>x</p>''"
  by code_simp

subsection \<open>Images\<close>

lemma tag_attrs_simps [simp]:
  "tag_attrs [] = []"
  "tag_attrs (xs @ ys) = tag_attrs xs @ tag_attrs ys"
  "tag_attrs (Element t as cs # ns) = (t, as) # tag_attrs cs @ tag_attrs ns"
  "tag_attrs (Text s # ns) = tag_attrs ns"
  "tag_attrs (Comment s # ns) = tag_attrs ns"
  by (simp_all add: tag_attrs_def descendants_def)

lemma tag_attrs_Cons: "tag_attrs (n # ns) = tag_attrs [n] @ tag_attrs ns"
  by (cases n) simp_all

lemma tag_attrs_set_Cons: "set (tag_attrs (n # ns)) = set (tag_attrs [n]) \<union> set (tag_attrs ns)"
  by (subst tag_attrs_Cons) simp

lemma all_tag_attrs_map:
  assumes "\<And>n. n \<in> set ns \<Longrightarrow> \<forall>ta \<in> set (tag_attrs [f n]). Q ta"
  shows "\<forall>ta \<in> set (tag_attrs (map f ns)). Q ta"
  using assms
proof (induction ns)
  case Nil
  then show ?case by simp
next
  case (Cons a ns)
  have "set (tag_attrs (map f (a # ns))) = set (tag_attrs [f a]) \<union> set (tag_attrs (map f ns))"
    by (simp add: tag_attrs_set_Cons[of "f a" "map f ns"])
  then show ?case using Cons by auto
qed

lemma tag_attrs_concat: "set (tag_attrs (concat xss)) = (\<Union>xs \<in> set xss. set (tag_attrs xs))"
  by (induction xss) auto

lemma tag_attrs_mem: "n \<in> set ns \<Longrightarrow> set (tag_attrs [n]) \<subseteq> set (tag_attrs ns)"
proof (induction ns)
  case Nil
  then show ?case by simp
next
  case (Cons m ns)
  then show ?case using tag_attrs_set_Cons[of m ns] by auto
qed

lemma semanticize_attrs_alt: "image_has_alt (t, semanticize_attrs t as)"
  by (auto simp: image_has_alt_def semanticize_attrs_def setAttribute_get reflect_def
      split: option.splits)

lemma semanticize_node_alt: "\<forall>ta \<in> set (tag_attrs [semanticize_node n]). image_has_alt ta"
proof (induction n rule: semanticize_node.induct)
  case (1 t as cs)
  have "\<forall>ta \<in> set (tag_attrs (map semanticize_node cs)). image_has_alt ta"
    using 1 by (intro all_tag_attrs_map) auto
  then show ?case by (simp add: semanticize_attrs_alt)
qed simp_all

lemma semanticize_step_alt: "\<forall>ta \<in> set (tag_attrs (semanticize_step ns)). image_has_alt ta"
  unfolding semanticize_step_def using semanticize_node_alt by (intro all_tag_attrs_map) auto

lemma remove_matching_subset:
  "set (tag_attrs (remove_matching P n)) \<subseteq> set (tag_attrs [n])"
proof (induction P n rule: remove_matching.induct)
  case (1 P t as cs)
  have "\<And>c. c \<in> set cs \<Longrightarrow> \<not> P (Element t as cs) \<Longrightarrow>
      set (tag_attrs (remove_matching P c)) \<subseteq> set (tag_attrs cs)"
    using 1 tag_attrs_mem by blast
  then show ?case by (auto simp: tag_attrs_concat)
qed simp_all

lemma remove_matching_list_subset:
  "set (tag_attrs (concat (map (remove_matching P) ns))) \<subseteq> set (tag_attrs ns)"
proof (induction ns)
  case Nil
  then show ?case by simp
next
  case (Cons n ns)
  then show ?case using remove_matching_subset[of P n] tag_attrs_set_Cons[of n ns] by auto
qed

lemma remove_fold_subset:
  "fold (\<lambda>tag (ns', removed).
             (concat (map (remove_matching (is_empty_element tag)) ns'),
              removed \<or> (\<exists>e \<in> set (descendants ns'). is_empty_element tag e)))
          tags (ns, r) = (ns2, r2) \<Longrightarrow> set (tag_attrs ns2) \<subseteq> set (tag_attrs ns)"
proof (induction tags arbitrary: ns r)
  case Nil
  then show ?case by simp
next
  case (Cons tag tags)
  define ns1 where "ns1 = concat (map (remove_matching (is_empty_element tag)) ns)"
  define r1 where "r1 = (r \<or> (\<exists>e \<in> set (descendants ns). is_empty_element tag e))"
  from Cons.prems have "fold (\<lambda>tag (ns', removed).
             (concat (map (remove_matching (is_empty_element tag)) ns'),
              removed \<or> (\<exists>e \<in> set (descendants ns'). is_empty_element tag e)))
          tags (ns1, r1) = (ns2, r2)"
    by (simp add: ns1_def r1_def)
  from Cons.IH[OF this] have "set (tag_attrs ns2) \<subseteq> set (tag_attrs ns1)" .
  also have "\<dots> \<subseteq> set (tag_attrs ns)" unfolding ns1_def by (rule remove_matching_list_subset)
  finally show ?case .
qed

lemma removeEmptyElements_subset:
  "set (tag_attrs (removeEmptyElements ns)) \<subseteq> set (tag_attrs ns)"
proof (induction ns rule: removeEmptyElements.induct)
  case (1 ns)
  obtain ns' removed where r: "remove_round ns = (ns', removed)" by (cases "remove_round ns")
  have s: "set (tag_attrs ns') \<subseteq> set (tag_attrs ns)"
    using r unfolding remove_round_def by (rule remove_fold_subset)
  show ?case
  proof (cases removed)
    case True
    then have "removeEmptyElements ns = removeEmptyElements ns'"
      using r by (subst removeEmptyElements.simps) simp
    then show ?thesis using 1[OF r[symmetric]] True s by auto
  next
    case False
    then have "removeEmptyElements ns = ns'"
      using r by (subst removeEmptyElements.simps) simp
    then show ?thesis using s by simp
  qed
qed

text \<open>
  The half of the claim about \<open>alt\<close> holds: with \<open>semanticize\<close> enabled, every \<open>img\<close> of the
  document that \<open>clean\<close> writes out has an \<open>alt\<close> attribute, whatever the input and the
  library.
\<close>

lemma clean_dom_images_have_alt:
  assumes "semanticize opt" and "clean_dom lib opt ns = Inr ns'"
  shows "\<forall>ta \<in> set (tag_attrs ns'). image_has_alt ta"
proof -
  from assms obtain n5 where
    r: "ns' = (if removeEmpty opt then removeEmptyElements (semanticize_step n5)
               else semanticize_step n5)"
    by (auto simp: clean_dom_def Let_def split: sum.splits)
  have "set (tag_attrs ns') \<subseteq> set (tag_attrs (semanticize_step n5))"
    unfolding r using removeEmptyElements_subset by simp
  then show ?thesis using semanticize_step_alt by blast
qed

text \<open>
  The half about \<open>loading\<close> does not: \<open>semanticize\<close> leaves the \<open>loading\<close> attribute of every
  element as it finds it, and the images that the converters build have none.
\<close>

lemma getAttribute_setAttribute_other:
  "name \<noteq> k \<Longrightarrow> getAttribute (setAttribute k v as) name = getAttribute as name"
  by (simp add: setAttribute_get)

lemma semanticize_attrs_keeps:
  "name \<noteq> ''alt'' \<Longrightarrow> getAttribute (semanticize_attrs t as) name = getAttribute as name"
  by (simp add: semanticize_attrs_def getAttribute_setAttribute_other)

lemma tag_attrs_semanticize_node:
  "tag_attrs [semanticize_node n] =
     map (\<lambda>ta. (fst ta, semanticize_attrs (fst ta) (snd ta))) (tag_attrs [n])"
proof (induction n rule: semanticize_node.induct)
  case (1 t as cs)
  have "tag_attrs (map semanticize_node cs) =
      map (\<lambda>ta. (fst ta, semanticize_attrs (fst ta) (snd ta))) (tag_attrs cs)"
    using 1
  proof (induction cs)
    case Nil
    then show ?case by simp
  next
    case (Cons c cs)
    have "tag_attrs (map semanticize_node (c # cs)) =
        tag_attrs [semanticize_node c] @ tag_attrs (map semanticize_node cs)"
      by (simp add: tag_attrs_Cons[of "semanticize_node c" "map semanticize_node cs"])
    then show ?case using Cons by (simp add: tag_attrs_Cons[of c cs])
  qed
  then show ?case by simp
qed simp_all

lemma tag_attrs_semanticize_step:
  "tag_attrs (semanticize_step ns) =
     map (\<lambda>ta. (fst ta, semanticize_attrs (fst ta) (snd ta))) (tag_attrs ns)"
proof (induction ns)
  case Nil
  then show ?case by (simp add: semanticize_step_def)
next
  case (Cons n ns)
  have "tag_attrs (semanticize_step (n # ns)) =
      tag_attrs [semanticize_node n] @ tag_attrs (semanticize_step ns)"
    by (simp add: semanticize_step_def
        tag_attrs_Cons[of "semanticize_node n" "map semanticize_node ns"])
  then show ?case
    using Cons tag_attrs_semanticize_node[of n] by (simp add: tag_attrs_Cons[of n ns])
qed

lemma semanticize_keeps_loading:
  "attr_values ''loading'' (semanticize_step ns) = attr_values ''loading'' ns"
  unfolding attr_values_def tag_attrs_semanticize_step
  by (simp add: semanticize_attrs_keeps comp_def)

lemma gallery_image_example:
  "clean plain_lib default_options
     ''<div data-widget_type=\"image-gallery.default\"><img src=\"a.png\"></div>''
   = Inr ''<figure><img src=\"a.png\" alt=\"\"></figure>''"
  by code_simp

text \<open>
  Claim C5 (image attributes): every \<open>img\<close> element in the output of \<open>clean\<close>, with the
  default options, has an \<open>alt\<close> attribute and the attribute \<open>loading="lazy"\<close>. The code
  means to add both (\<open>// Add loading="lazy" to images\<close>), but it assigns to the property
  \<open>img.loading\<close>, which the image elements of the library do not have, where the video
  converter of the same file calls \<open>setAttribute('loading', 'lazy')\<close>. The output for a
  paragraph with an image has the \<open>alt\<close> attribute and no \<open>loading\<close> attribute, and on
  every document \<open>semanticize\<close> leaves the \<open>loading\<close> attributes as they are.
\<close>

theorem clean_image_without_loading:
  "clean plain_lib default_options ''<p><img src=\"a.png\"></p>''
     = Inr ''<p><img src=\"a.png\" alt=\"\"></p>'' \<and>
   attr_values ''loading'' (semanticize_step ns) = attr_values ''loading'' ns"
proof
  show "clean plain_lib default_options ''<p><img src=\"a.png\"></p>''
     = Inr ''<p><img src=\"a.png\" alt=\"\"></p>''"
    by code_simp
  show "attr_values ''loading'' (semanticize_step ns) = attr_values ''loading'' ns"
    by (rule semanticize_keeps_loading)
qed

subsection \<open>URL rewriting\<close>

lemma getSubstitution_plain:
  "CHR ''$'' \<notin> set r \<Longrightarrow> getSubstitution m p f r = r"
  by (induction m p f r rule: getSubstitution.induct) auto

lemma convertUrl_cases:
  assumes "baseUrl opt \<noteq> []"
  shows "CHR ''$'' \<notin> set (newBaseUrl opt) \<Longrightarrow>
           convertUrl opt (baseUrl opt @ rest) = newBaseUrl opt @ rest"
    and "\<not> startsWith (baseUrl opt) u \<Longrightarrow> startsWith ''/'' u \<Longrightarrow> \<not> startsWith ''//'' u \<Longrightarrow>
           convertUrl opt u = newBaseUrl opt @ u"
    and "\<not> startsWith (baseUrl opt) u \<Longrightarrow> \<not> (startsWith ''/'' u \<and> \<not> startsWith ''//'' u) \<Longrightarrow>
           convertUrl opt u = u"
  using assms by (auto simp: convertUrl_def startsWith_def getSubstitution_plain)

lemma fix_element_href:
  "getAttribute (fix_element_urls lib opt t as) ''href'' =
     (if t = ''a'' then map_option (\<lambda>v. convertUrl opt (url_of lib v)) (getAttribute as ''href'')
      else getAttribute as ''href'')"
  by (auto simp: fix_element_urls_def setAttribute_get reflect_url_def Let_def
      split: option.splits)

lemma fix_element_src:
  "getAttribute (fix_element_urls lib opt t as) ''src'' =
     (if t = ''img'' then map_option (\<lambda>v. convertUrl opt (url_of lib v)) (getAttribute as ''src'')
      else getAttribute as ''src'')"
  by (auto simp: fix_element_urls_def setAttribute_get reflect_url_def Let_def
      split: option.splits)

lemma fix_element_other:
  "t \<noteq> ''a'' \<Longrightarrow> t \<noteq> ''img'' \<Longrightarrow> fix_element_urls lib opt t as = as"
  by (simp add: fix_element_urls_def)

lemma tag_attrs_fix_node:
  "tag_attrs [fix_node_urls lib opt n] =
     map (\<lambda>ta. (fst ta, fix_element_urls lib opt (fst ta) (snd ta))) (tag_attrs [n])"
proof (induction n rule: fix_node_urls.induct)
  case (1 lib opt t as cs)
  have "tag_attrs (map (fix_node_urls lib opt) cs) =
      map (\<lambda>ta. (fst ta, fix_element_urls lib opt (fst ta) (snd ta))) (tag_attrs cs)"
    using 1
  proof (induction cs)
    case Nil
    then show ?case by simp
  next
    case (Cons c cs)
    have "tag_attrs (map (fix_node_urls lib opt) (c # cs)) =
        tag_attrs [fix_node_urls lib opt c] @ tag_attrs (map (fix_node_urls lib opt) cs)"
      by (simp add: tag_attrs_Cons[of "fix_node_urls lib opt c" "map (fix_node_urls lib opt) cs"])
    then show ?case using Cons by (simp add: tag_attrs_Cons[of c cs])
  qed
  then show ?case by simp
qed simp_all

lemma tag_attrs_fix_nodes:
  "tag_attrs (map (fix_node_urls lib opt) ns) =
     map (\<lambda>ta. (fst ta, fix_element_urls lib opt (fst ta) (snd ta))) (tag_attrs ns)"
proof (induction ns)
  case Nil
  then show ?case by simp
next
  case (Cons n ns)
  have "tag_attrs (map (fix_node_urls lib opt) (n # ns)) =
      tag_attrs [fix_node_urls lib opt n] @ tag_attrs (map (fix_node_urls lib opt) ns)"
    by (simp add: tag_attrs_Cons[of "fix_node_urls lib opt n" "map (fix_node_urls lib opt) ns"])
  then show ?case using Cons tag_attrs_fix_node[of lib opt n] by (simp add: tag_attrs_Cons[of n ns])
qed

lemma fixUrls_example:
  "clean plain_lib with_bases
     ''<p><a href=\"http://old.example/about\">About</a><img src=\"/logo.png\"><a href=\"mailto:x@y.z\">Mail</a></p>''
   = Inr ''<p><a href=\"https://new.example/about\">About</a><img src=\"https://new.example/logo.png\" alt=\"\"><a href=\"mailto:x@y.z\">Mail</a></p>''"
  by code_simp

lemma fix_element_data_src:
  "getAttribute (fix_element_urls lib opt t as) ''data-src'' = rewritten_data_src opt (t, as)"
  by (auto simp: fix_element_urls_def rewritten_data_src_def setAttribute_get reflect_def
      convertUrl_def Let_def split: option.splits)

lemma fix_element_keeps:
  "name \<noteq> ''href'' \<Longrightarrow> name \<noteq> ''src'' \<Longrightarrow> name \<noteq> ''data-src'' \<Longrightarrow>
   getAttribute (fix_element_urls lib opt t as) name = getAttribute as name"
  by (simp add: fix_element_urls_def setAttribute_get Let_def)

text \<open>
  Claim C2 (URL rewriting), as amended. With both base URLs configured, \<open>fixUrls\<close> rewrites
  the \<open>href\<close> of every \<open>a\<close> element, the \<open>src\<close> of every \<open>img\<close> element, and the \<open>data-src\<close>
  of every \<open>img\<close> element that has a \<open>src\<close> attribute; it changes no \<open>href\<close>, \<open>src\<close> or
  \<open>data-src\<close> of any other element, and no other attribute of any element. Element by
  element, the new \<open>href\<close> or \<open>src\<close> is \<open>convertUrl\<close> of the value the DOM resolves the
  attribute to, and the new \<open>data-src\<close> is \<open>convertUrl\<close> of the attribute's text.
  \<open>convertUrl\<close> replaces the prefix \<open>baseUrl\<close> by \<open>newBaseUrl\<close> (when \<open>newBaseUrl\<close> has no \<open>$\<close>,
  which \<open>String.prototype.replace\<close> would expand), puts \<open>newBaseUrl\<close> before a value that
  starts with one \<open>/\<close>, and returns every other value as it is.
\<close>

theorem fixUrls_rewrites:
  assumes "baseUrl opt \<noteq> []" and "newBaseUrl opt \<noteq> []"
  shows "attr_values ''href'' (fixUrls lib opt ns) =
           map (rewritten lib opt ''a'') (attr_values ''href'' ns) \<and>
         attr_values ''src'' (fixUrls lib opt ns) =
           map (rewritten lib opt ''img'') (attr_values ''src'' ns) \<and>
         map (\<lambda>ta. getAttribute (snd ta) ''data-src'') (tag_attrs (fixUrls lib opt ns)) =
           map (rewritten_data_src opt) (tag_attrs ns) \<and>
         (name \<noteq> ''href'' \<and> name \<noteq> ''src'' \<and> name \<noteq> ''data-src'' \<longrightarrow>
            attr_values name (fixUrls lib opt ns) = attr_values name ns) \<and>
         (CHR ''$'' \<notin> set (newBaseUrl opt) \<longrightarrow>
            convertUrl opt (baseUrl opt @ rest) = newBaseUrl opt @ rest) \<and>
         (\<not> startsWith (baseUrl opt) u \<and> startsWith ''/'' u \<and> \<not> startsWith ''//'' u \<longrightarrow>
            convertUrl opt u = newBaseUrl opt @ u) \<and>
         (\<not> startsWith (baseUrl opt) u \<and> \<not> (startsWith ''/'' u \<and> \<not> startsWith ''//'' u) \<longrightarrow>
            convertUrl opt u = u)"
proof -
  have f: "fixUrls lib opt ns = map (fix_node_urls lib opt) ns"
    using assms by (simp add: fixUrls_def)
  have h: "attr_values ''href'' (fixUrls lib opt ns) =
           map (rewritten lib opt ''a'') (attr_values ''href'' ns)"
    unfolding f attr_values_def tag_attrs_fix_nodes
    by (simp add: rewritten_def fix_element_href comp_def)
  have s: "attr_values ''src'' (fixUrls lib opt ns) =
           map (rewritten lib opt ''img'') (attr_values ''src'' ns)"
    unfolding f attr_values_def tag_attrs_fix_nodes
    by (simp add: rewritten_def fix_element_src comp_def)
  have d: "map (\<lambda>ta. getAttribute (snd ta) ''data-src'') (tag_attrs (fixUrls lib opt ns)) =
           map (rewritten_data_src opt) (tag_attrs ns)"
    unfolding f tag_attrs_fix_nodes
    by (simp add: fix_element_data_src comp_def)
  have k: "attr_values name (fixUrls lib opt ns) = attr_values name ns"
    if "name \<noteq> ''href'' \<and> name \<noteq> ''src'' \<and> name \<noteq> ''data-src''"
    unfolding f attr_values_def tag_attrs_fix_nodes
    using that by (simp add: fix_element_keeps comp_def)
  show ?thesis
    using h s d k convertUrl_cases[OF assms(1)] by blast
qed

theorem fixUrls_rewrites_witness:
  "attr_values ''href''
     (fixUrls plain_lib with_bases
        [Element ''a'' [(''href'', ''http://old.example/about'')] [Text ''About''],
         Element ''link'' [(''href'', ''http://old.example/style.css'')] [],
         Element ''img'' [(''src'', ''/a.png''), (''data-src'', ''http://old.example/b.png'')] [],
         Element ''img'' [(''data-src'', ''http://old.example/c.png'')] []])
   = [(''a'', Some ''https://new.example/about''),
      (''link'', Some ''http://old.example/style.css''),
      (''img'', None), (''img'', None)] \<and>
   map (\<lambda>ta. getAttribute (snd ta) ''data-src'')
     (tag_attrs
        (fixUrls plain_lib with_bases
           [Element ''a'' [(''href'', ''http://old.example/about'')] [Text ''About''],
            Element ''link'' [(''href'', ''http://old.example/style.css'')] [],
            Element ''img'' [(''src'', ''/a.png''), (''data-src'', ''http://old.example/b.png'')] [],
         Element ''img'' [(''data-src'', ''http://old.example/c.png'')] []]))
   = [None, None, Some ''https://new.example/b.png'', Some ''http://old.example/c.png'']"
proof -
  let ?ns = "[Element ''a'' [(''href'', ''http://old.example/about'')] [Text ''About''],
         Element ''link'' [(''href'', ''http://old.example/style.css'')] [],
         Element ''img'' [(''src'', ''/a.png''), (''data-src'', ''http://old.example/b.png'')] [],
         Element ''img'' [(''data-src'', ''http://old.example/c.png'')] []]"
  have b: "baseUrl with_bases \<noteq> []" "newBaseUrl with_bases \<noteq> []"
    by (simp_all add: with_bases_def)
  have "attr_values ''href'' (fixUrls plain_lib with_bases ?ns) =
           map (rewritten plain_lib with_bases ''a'') (attr_values ''href'' ?ns)"
    and "map (\<lambda>ta. getAttribute (snd ta) ''data-src'') (tag_attrs (fixUrls plain_lib with_bases ?ns)) =
           map (rewritten_data_src with_bases) (tag_attrs ?ns)"
    using fixUrls_rewrites[OF b, of plain_lib ?ns] by blast+
  moreover have "map (rewritten plain_lib with_bases ''a'') (attr_values ''href'' ?ns) =
      [(''a'', Some ''https://new.example/about''),
       (''link'', Some ''http://old.example/style.css''),
       (''img'', None), (''img'', None)]"
    by code_simp
  moreover have "map (rewritten_data_src with_bases) (tag_attrs ?ns) =
      [None, None, Some ''https://new.example/b.png'', Some ''http://old.example/c.png'']"
    by code_simp
  ultimately show ?thesis by simp
qed

text \<open>
  The claim as stated (every \<open>href\<close>/\<open>src\<close> that starts with the old base is rewritten)
  does not hold: the \<open>src\<close> of a \<open>video\<close> element keeps the old base.
\<close>

theorem fixUrls_video_counterexample:
  "clean plain_lib with_bases ''<p><video src=\"http://old.example/a.mp4\"></video></p>''
     = Inr ''<p><video src=\"http://old.example/a.mp4\"></video></p>''"
  by code_simp

subsection \<open>Widgets without a conversion\<close>

lemma throwing_append:
  "throwing_widgets lib (xs @ ys) = throwing_widgets lib xs @ throwing_widgets lib ys"
  by (simp add: throwing_widgets_def descendants_def)

lemma convertElementorWidgets_Inr:
  "convertElementorWidgets lib ns = Inr r \<longleftrightarrow>
     throwing_widgets lib ns = [] \<and>
     r = concat (map (unwrap_matching (matches sections_selector)) (concat (map (convert_widgets lib) ns)))"
  by (auto simp: convertElementorWidgets_def split: list.splits)





lemma throwing_Element:
  "throwing_widgets lib (Element t as cs # ns) =
     throwing_widgets lib [Element t as []] @ throwing_widgets lib cs @ throwing_widgets lib ns"
  by (simp add: throwing_widgets_def descendants_def convert_widget_def
      split: option.splits converter.splits widget_outcome.splits)

text \<open>
  A child of the container that the loop does not replace, and that is no section, stays
  at its place among its siblings; its children are what the step makes of them.
\<close>

lemma kept_element_in_place:
  assumes "convert_widget lib (Element t as cs) = Kept"
    and "\<not> matches sections_selector (Element t as cs)"
    and "throwing_widgets lib (before @ Element t as cs # after) = []"
  shows "\<exists>before' cs' after'.
           convertElementorWidgets lib before = Inr before' \<and>
           convertElementorWidgets lib cs = Inr cs' \<and>
           convertElementorWidgets lib after = Inr after' \<and>
           convertElementorWidgets lib (before @ Element t as cs # after)
             = Inr (before' @ Element t as cs' # after')"
proof -
  let ?u = "\<lambda>ns. concat (map (unwrap_matching (matches sections_selector)) ns)"
  let ?c = "\<lambda>ns. concat (map (convert_widgets lib) ns)"
  have th: "throwing_widgets lib before = []" "throwing_widgets lib cs = []"
    "throwing_widgets lib after = []"
    using assms(3) by (simp_all add: throwing_append throwing_Element[of lib t as cs after])
  have w: "convert_widgets lib (Element t as cs) = [Element t as (?c cs)]"
    using assms(1) by simp
  have mm: "\<not> matches sections_selector (Element t as (?c cs))"
    using assms(2) by (simp add: sections_selector_def)
  have u: "unwrap_matching (matches sections_selector) (Element t as (?c cs)) =
      [Element t as (?u (?c cs))]"
    using mm by (simp del: matches.simps)
  have "?u (?c (before @ Element t as cs # after)) =
      ?u (?c before) @ Element t as (?u (?c cs)) # ?u (?c after)"
    by (simp add: w u del: convert_widgets.simps unwrap_matching.simps)
  then show ?thesis
    unfolding convertElementorWidgets_Inr using th assms(3) by simp
qed















text \<open>
  What the later steps do to a widget the loop has left: it loses its attribute, and a
  \<open>div\<close> around a single block element is unwrapped.
\<close>

lemma unknown_widget_changed_example:
  "clean plain_lib default_options ''<div data-widget_type=\"countdown.default\">Soon</div>''
     = Inr ''<div>Soon</div>''"
  "clean plain_lib default_options
     ''<div data-widget_type=\"countdown.default\"><div class=\"elementor-widget-container\"><p>Soon</p></div></div>''
     = Inr ''<p>Soon</p>''"
  by code_simp+

lemma inherited_widget_examples:
  "clean plain_lib default_options ''<p>a</p><div data-widget_type=\"toString.default\"><p>x</p></div>''
     = Inr ''<p>a</p>[object Object]''"
  "clean plain_lib default_options ''<p>a</p><div data-widget_type=\"constructor.default\"><p>x</p></div>''
     = Inr ''<p>a</p><p>x</p>''"
  "clean plain_lib default_options ''<p>a</p><div data-widget_type=\"__proto__.default\"><p>x</p></div>''
     = Inl (TypeError ''__proto__'')"
  by code_simp+

lemma scenario_A:
  "clean plain_lib default_options
     ''<div class=\"elementor-widget\" data-widget_type=\"heading.default\"><h2 class=\"elementor-heading-title\">Hello</h2></div>''
   = Inr ''<h2>Hello</h2>''"
  by code_simp




section \<open>Properties of the orchestrator\<close>

lemma transform_slug:
  "transform w mm news pg = Inr d \<Longrightarrow> d_slug d = p_slug pg"
  by (auto simp: transform_def split: sum.splits)

lemma transform_all_slugs:
  "transform_all w mm news pgs = Inr ds \<Longrightarrow> map d_slug ds = map p_slug pgs"
  by (induction pgs arbitrary: ds) (auto simp: transform_slug split: sum.splits)

lemma transform_all_total:
  assumes "\<forall>pg \<in> set pgs. (\<exists>c. cleaner w (p_content pg) = Inr c) \<and>
                           (\<exists>x. cleaner w (p_excerpt pg) = Inr x)"
  shows "\<exists>ds. transform_all w mm news pgs = Inr ds"
  using assms
proof (induction pgs)
  case Nil
  then show ?case by simp
next
  case (Cons pg pgs)
  obtain c where c: "cleaner w (p_content pg) = Inr c" using Cons.prems by auto
  obtain x where x: "cleaner w (p_excerpt pg) = Inr x" using Cons.prems by auto
  have "\<exists>d. transform w mm news pg = Inr d" by (simp add: transform_def c x)
  moreover have "\<exists>ds. transform_all w mm news pgs = Inr ds" using Cons by simp
  ultimately show ?case by auto
qed

lemma assign_first_slugs: "map d_slug (assign_first sec item ds) = map d_slug ds"
  by (induction ds) auto

lemma assign_items_slugs:
  "map d_slug (fold (\<lambda>item ds'. assign_item sec ds' item) mitems ds) = map d_slug ds"
  by (induction mitems arbitrary: ds) (auto simp: assign_item_def assign_first_slugs)

lemma assign_menus_slugs:
  "map d_slug (snd (assign_menus ms acc)) = map d_slug (snd acc)"
  by (induction ms acc rule: assign_menus.induct) (auto simp: assign_items_slugs)

lemma write_pages_no_store: "\<forall>e \<in> set (fst (write_pages w made xs)). \<not> store_write e"
  by (induction w made xs rule: write_pages.induct)
     (auto simp: store_write_def split: option.splits prod.splits)

lemma report_stage_no_store:
  "\<forall>e \<in> set (fst (report_stage w o' made src wp ds secs mm)). \<not> store_write e"
proof -
  have a: "\<not> store_write (WriteReport p r)" "\<not> store_write (MkDir d)" for p r d
    by (simp_all add: store_write_def)
  have b: "write_pages w made' xs = (written, failure) \<Longrightarrow> \<forall>e \<in> set written. \<not> store_write e"
    for made' xs written failure
    using write_pages_no_store[of w made' xs] by simp
  show ?thesis
    unfolding report_stage_def Let_def
    by (auto simp: a dest: b split: option.splits prod.splits)
qed

lemma media_stage_no_store:
  "media_stage w o' app dry wp = Inr (mm, e2) \<Longrightarrow> \<forall>e \<in> set e2. \<not> store_write e"
  by (auto simp: media_stage_def store_write_def Let_def split: if_splits sum.splits option.splits)

text \<open>
  With the dry-run flag set, the run performs no write to the document store, however it
  ends.
\<close>

lemma run_without_commit:
  assumes "dryRun o' \<or> initFirebase w = None"
  shows "\<forall>e \<in> set (fst (run w o')). \<not> store_write e"
proof -
  have m: "\<not> store_write (MkDir d)" for d by (simp add: store_write_def)
  have ms: "media_stage w o' app dry wp = Inr (mm, e2) \<Longrightarrow> e \<in> set e2 \<Longrightarrow> \<not> store_write e"
    for app dry wp mm e2 e
    using media_stage_no_store by blast
  have rs: "report_stage w o' made src wp ds secs mm = (e4, failure) \<Longrightarrow> e \<in> set e4 \<Longrightarrow>
      \<not> store_write e" for made src wp ds secs mm e4 failure e
    using report_stage_no_store[of w o' made src wp ds secs mm] by simp
  define app where "app = (if dryRun o' then None else initFirebase w)"
  have dry: "dryRun o' \<or> app = None"
    using assms by (auto simp: app_def)
  show ?thesis
    unfolding run_def Let_def app_def[symmetric]
    using dry by (auto simp: m dest: ms rs split: option.splits sum.splits prod.splits)
qed

lemma run_dry_no_store:
  assumes "dryRun o'"
  shows "\<forall>e \<in> set (fst (run w o')). \<not> store_write e"
  using assms by (intro run_without_commit) simp

lemma run_no_credentials_no_store:
  assumes "service_account w = None"
  shows "\<forall>e \<in> set (fst (run w o')). \<not> store_write e"
  using assms by (intro run_without_commit) (simp add: initFirebase_def)

lemma write_pages_ok:
  "\<forall>p. write_error w made p = None \<Longrightarrow>
   write_pages w made xs = (map (\<lambda>pc. WritePage (fst pc) (snd pc)) xs, None)"
  by (induction w made xs rule: write_pages.induct) auto

lemma media_stage_ok:
  assumes "uploadMedia o' \<longrightarrow> app \<noteq> None" and "\<forall>d. mkdir_error w d = None"
  shows "\<exists>mm e2. media_stage w o' app dry wp = Inr (mm, e2)"
proof (cases "downloadMedia o' \<or> uploadMedia o'")
  case False
  then show ?thesis by (simp add: media_stage_def)
next
  case True
  have "\<exists>bucket.
      (if uploadMedia o' then map_sum id Some (storage_bucket_name app) else Inr None) = Inr bucket"
    using assms(1) by (cases app) (simp_all add: storage_bucket_name_def)
  then obtain bucket where
    b: "(if uploadMedia o' then map_sum id Some (storage_bucket_name app) else Inr None) = Inr bucket"
    by blast
  define m1 where "m1 =
     (if uploadMedia o' \<and> \<not> dry
      then initStorage (new_migrator (Some (path_join (platform w) (outputDir o') ''media''))
                          bucket None None)
      else new_migrator (Some (path_join (platform w) (outputDir o') ''media'')) bucket None None)"
  have c: "0 < concurrency (opts m1)"
    by (simp add: m1_def new_migrator_def initStorage_def)
  obtain m2 where m2: "migrate (platform w) m1
      (zip (wp_attachments wp) (map (net_of w) [0..<length (wp_attachments wp)])) = Some m2"
    using migrate_fold[OF c] by blast
  show ?thesis
    using True b m2 assms(2) by (simp add: media_stage_def Let_def m1_def)
qed

text \<open>
  A run whose input file exists and parses, whose file system refuses nothing, whose
  cleaner returns for every page and post, and which asks for \<open>--upload-media\<close> only
  with the store initialised, completes and has written the report and a preview file for
  every page and post, named by the slug followed by \<open>.html\<close>.
\<close>

lemma run_completes:
  assumes "inputFile o' = Some src" and "src \<noteq> [] \<and> input_exists w src"
    and "parse_file w src = Inr wp"
    and "uploadMedia o' \<longrightarrow> \<not> dryRun o' \<and> service_account w \<noteq> None"
    and "\<forall>pg \<in> set (wp_pages wp @ wp_posts wp).
           (\<exists>c. cleaner w (p_content pg) = Inr c) \<and> (\<exists>x. cleaner w (p_excerpt pg) = Inr x)"
    and "\<forall>d. mkdir_error w d = None" and "\<forall>made p. write_error w made p = None"
  shows "\<exists>mm secs ds.
          snd (run w o') = Completed \<and>
          map d_slug ds = map p_slug (wp_pages wp @ wp_posts wp) \<and>
          WriteReport (path_join (platform w) (outputDir o') ''migration-report.json'')
             (build_report w src wp ds secs mm) \<in> set (fst (run w o')) \<and>
          (\<forall>d \<in> set ds.
             WritePage (path_join (platform w)
                          (path_join (platform w) (outputDir o') ''cleaned-content'')
                          (d_slug d @ ''.html''))
                       (d_content d) \<in> set (fst (run w o')))"
proof -
  define app where "app = (if dryRun o' then None else initFirebase w)"
  define dry where "dry = (dryRun o' \<or> app = None)"
  have "uploadMedia o' \<longrightarrow> app \<noteq> None"
    using assms(4) by (auto simp: app_def initFirebase_def)
  then obtain mm e2 where ms: "media_stage w o' app dry wp = Inr (mm, e2)"
    using media_stage_ok assms(6) by blast
  have pg: "\<forall>pg \<in> set (wp_pages wp). (\<exists>c. cleaner w (p_content pg) = Inr c) \<and>
                           (\<exists>x. cleaner w (p_excerpt pg) = Inr x)"
    and po: "\<forall>pg \<in> set (wp_posts wp). (\<exists>c. cleaner w (p_content pg) = Inr c) \<and>
                           (\<exists>x. cleaner w (p_excerpt pg) = Inr x)"
    using assms(5) by auto
  obtain ds1 where ds1: "transform_all w mm False (wp_pages wp) = Inr ds1"
    using transform_all_total[OF pg] by blast
  obtain ds2 where ds2: "transform_all w mm True (wp_posts wp) = Inr ds2"
    using transform_all_total[OF po] by blast
  obtain secs ds where am: "assign_menus (wp_menus wp) ([], ds1 @ ds2) = (secs, ds)"
    by (cases "assign_menus (wp_menus wp) ([], ds1 @ ds2)") auto
  define e5 where "e5 = (if dry then [] else commit_stage o' wp ds secs mm)"
  define reportPath where
    "reportPath = path_join (platform w) (outputDir o') ''migration-report.json''"
  define contentPath where
    "contentPath = path_join (platform w) (outputDir o') ''cleaned-content''"
  define e4 where "e4 =
     [WriteReport reportPath (build_report w src wp ds secs mm), MkDir contentPath] @
     map (\<lambda>d. WritePage (path_join (platform w) contentPath (d_slug d @ ''.html'')) (d_content d)) ds"
  have rs: "report_stage w o' made src wp ds secs mm = (e4, None)" for made
    using assms(6,7)
    by (simp add: report_stage_def Let_def write_pages_ok e4_def reportPath_def contentPath_def
        comp_def)
  have r: "run w o' = ([MkDir (outputDir o')] @ e2 @ e4 @ e5, Completed)"
    using assms(1,2,3,6) ms ds1 ds2 am rs
    by (simp add: run_def Let_def app_def[symmetric] dry_def[symmetric] e5_def)
  have sl: "map d_slug ds = map p_slug (wp_pages wp @ wp_posts wp)"
    using assign_menus_slugs[of "wp_menus wp" "([], ds1 @ ds2)"] am
      transform_all_slugs[OF ds1] transform_all_slugs[OF ds2] by simp
  show ?thesis
    by (rule exI[of _ mm], rule exI[of _ secs], rule exI[of _ ds])
       (auto simp: r sl e4_def reportPath_def contentPath_def)
qed

lemma run_degrades_without_upload:
  assumes "service_account w = None" and "\<not> uploadMedia o'"
    and "inputFile o' = Some src" and "src \<noteq> [] \<and> input_exists w src"
    and "parse_file w src = Inr wp"
    and "\<forall>pg \<in> set (wp_pages wp @ wp_posts wp).
           (\<exists>c. cleaner w (p_content pg) = Inr c) \<and> (\<exists>x. cleaner w (p_excerpt pg) = Inr x)"
    and "\<forall>d. mkdir_error w d = None" and "\<forall>made p. write_error w made p = None"
  shows "snd (run w o') = Completed"
    and "\<exists>rep. WriteReport (path_join (platform w) (outputDir o') ''migration-report.json'') rep
           \<in> set (fst (run w o'))"
    and "\<forall>e \<in> set (fst (run w o')). \<not> store_write e"
proof -
  have h: "uploadMedia o' \<longrightarrow> \<not> dryRun o' \<and> service_account w \<noteq> None"
    using assms(2) by simp
  from run_completes[OF assms(3,4,5) h assms(6,7,8)]
  show "snd (run w o') = Completed"
    and "\<exists>rep. WriteReport (path_join (platform w) (outputDir o') ''migration-report.json'') rep
           \<in> set (fst (run w o'))"
    by blast+
  show "\<forall>e \<in> set (fst (run w o')). \<not> store_write e"
    using assms(1) by (rule run_no_credentials_no_store)
qed

text \<open>
  Claim C8 (credential-failure degradation): when the store credentials cannot be
  initialised, the run switches to dry-run and completes the parse, clean and report
  stages instead of aborting, also when media migration is requested. This holds for
  runs that do not ask for \<open>--upload-media\<close> (\<open>run_degrades_without_upload\<close>). With
  \<open>--upload-media\<close> the media stage reads \<open>admin.storage().bucket().name\<close> although no app
  was initialised: the run is rejected after parsing, and no report is written.
\<close>

theorem run_upload_without_credentials:
  "run world_without_credentials (cli ''export.xml'' False False True) =
     ([MkDir ''./migration/output''], Rejected ''The default Firebase app does not exist.'')"
  by code_simp

text \<open>
  Claim C9 (dry-run frame property): on every run the report and one preview file per
  page are written regardless of the dry-run flag, and with the flag set no write to the
  document store is performed. The second half holds (\<open>run_dry_no_store\<close>), and a run all
  of whose stages succeed writes the report and the previews (\<open>run_completes\<close>). But the
  flag decides whether a run with \<open>--upload-media\<close> gets that far. The options of the media
  migrator read \<open>admin.storage().bucket().name\<close>; with \<open>--dry-run\<close> the store is never
  initialised, the read throws and the run is rejected before the report and the
  previews are written, where the same command line without \<open>--dry-run\<close> completes and
  writes them. The statement that follows in the code, which calls \<open>initStorage\<close> only when
  \<open>options.dryRun\<close> is not set, shows that a dry run with \<open>--upload-media\<close> is meant to go on.
\<close>

theorem run_dry_upload_media_rejected:
  "run world_with_credentials (cli ''export.xml'' True False True) =
     ([MkDir ''./migration/output''], Rejected ''The default Firebase app does not exist.'') \<and>
   snd (run world_with_credentials (cli ''export.xml'' False False True)) = Completed \<and>
   written_files (fst (run world_with_credentials (cli ''export.xml'' False False True))) =
     [(''migration/output/cleaned-content/about-us.html'', ''<p>Hello</p>'')]"
  by code_simp

text \<open>Scenarios C (menu assignment) and D (dry run of a one-page export) of the specification.\<close>

lemma scenario_C:
  "map (\<lambda>d. (d_menuSection d, d_menuOrder d))
     (snd (assign_menus
        [(''Main Menu'',
          [\<lparr>mi_title = ''About'', mi_objectType = ''page'', mi_url = ''/about-us/'',
            mi_order = 3\<rparr>])]
        ([], [\<lparr>d_title = ''About Us'', d_slug = ''about-us'', d_content = [],
               d_status = JString ''published'', d_pageType = ''standard'',
               d_menuSection = None, d_menuOrder = 0, d_metaTitle = [],
               d_metaDescription = [], d_headerImage = [], d_createdAt = [],
               d_updatedAt = [], d_createdBy = [], d_updatedBy = []\<rparr>])))
   = [(Some ''main-menu'', 3)]"
  by code_simp

lemma scenario_D:
  "snd (run world_without_credentials (cli ''export.xml'' True False False)) = Completed \<and>
   map store_write (fst (run world_without_credentials (cli ''export.xml'' True False False)))
     = [False, False, False, False] \<and>
   written_files (fst (run world_without_credentials (cli ''export.xml'' True False False))) =
     [(''migration/output/cleaned-content/about-us.html'', ''<p>Hello</p>'')]"
  by code_simp

text \<open>
  A page whose slug has a slash is written below a directory that no step creates: the
  run is rejected after the report has been written. Two pages with the same slug are
  written to the same file, of which the second content remains.
\<close>

lemma run_slug_with_slash:
  "snd (run (world_without_credentials
               \<lparr>parse_file := (\<lambda>f. Inr (small_export\<lparr>wp_pages := [about_page\<lparr>p_slug := ''a/b''\<rparr>]\<rparr>))\<rparr>)
            (cli ''export.xml'' True False False))
   = Rejected ''ENOENT: no such file or directory, open migration/output/cleaned-content/a/b.html''"
  by code_simp

lemma run_same_slug:
  "written_files
     (fst (run (world_without_credentials
                  \<lparr>parse_file :=
                     (\<lambda>f. Inr (small_export
                                 \<lparr>wp_pages := [about_page, about_page\<lparr>p_content := ''<p>Bye</p>''\<rparr>]\<rparr>))\<rparr>)
               (cli ''export.xml'' True False False)))
   = [(''migration/output/cleaned-content/about-us.html'', ''<p>Bye</p>'')]"
  by code_simp

end
